theory Spec2Isabelle
  imports Main "HOL-Library.AList"
begin

section \<open>JavaScript values\<close>

text \<open>
  The numbers of the model: the integers of magnitude up to \<open>2^53\<close>. A double
  holds each of them exactly and JavaScript prints each in plain decimal digits.
  Fractional numbers, larger numbers, NaN and the infinities are not represented.
\<close>

typedef exact_int = "{i :: int. \<bar>i\<bar> \<le> 2 ^ 53}"
  morphisms int_of Abs_exact_int
  by (rule exI [of _ 0]) simp

setup_lifting type_definition_exact_int

text \<open>\<open>exact i\<close> is the number \<open>i\<close>, for \<open>i\<close> of magnitude up to \<open>2^53\<close>; no other
  argument is used.\<close>

lift_definition exact :: "int \<Rightarrow> exact_int" is "\<lambda>i. if \<bar>i\<bar> \<le> 2 ^ 53 then i else 0"
  by simp

instantiation exact_int :: equal
begin

lift_definition equal_exact_int :: "exact_int \<Rightarrow> exact_int \<Rightarrow> bool" is "(=)" .

instance
  by standard (transfer, simp)

end

text \<open>
  The values \<^verbatim>\<open>JSON.parse\<close> and an HTTP response body can produce. An object is
  the list of its own properties in insertion order. \<open>undefined\<close> is \<open>None\<close> of
  \<open>json option\<close>.
\<close>

datatype json =
    JNull
  | JBool bool
  | JNum exact_int
  | JStr string
  | JArr "json list"
  | JObj "(string \<times> json) list"

text \<open>A JavaScript \<^verbatim>\<open>Error\<close>, by its message.\<close>

datatype js_error = JsError string

text \<open>Truthiness of a value, as \<^verbatim>\<open>!v\<close>, \<^verbatim>\<open>v ? a : b\<close> and \<^verbatim>\<open>v || w\<close> test it.\<close>

fun truthy :: "json option \<Rightarrow> bool" where
  "truthy None = False"
| "truthy (Some JNull) = False"
| "truthy (Some (JBool b)) = b"
| "truthy (Some (JNum n)) = (int_of n \<noteq> 0)"
| "truthy (Some (JStr s)) = (s \<noteq> [])"
| "truthy (Some (JArr xs)) = True"
| "truthy (Some (JObj kvs)) = True"

text \<open>\<^verbatim>\<open>typeof v\<close>.\<close>

fun typeof :: "json option \<Rightarrow> string" where
  "typeof None = ''undefined''"
| "typeof (Some JNull) = ''object''"
| "typeof (Some (JBool b)) = ''boolean''"
| "typeof (Some (JNum n)) = ''number''"
| "typeof (Some (JStr s)) = ''string''"
| "typeof (Some (JArr xs)) = ''object''"
| "typeof (Some (JObj kvs)) = ''object''"

text \<open>
  \<^verbatim>\<open>v?.name\<close> for the property names the source reads (\<open>datasetId\<close>, \<open>data\<close>,
  \<open>dataSets\<close>, \<open>observations\<close>, \<open>id\<close>): none of them is an index or \<open>length\<close>,
  so only an object has them. On \<open>undefined\<close> and \<open>null\<close> the optional chain
  yields \<open>undefined\<close>.
\<close>

fun opt_prop :: "json option \<Rightarrow> string \<Rightarrow> json option" where
  "opt_prop (Some (JObj kvs)) k = map_of kvs k"
| "opt_prop _ k = None"

text \<open>
  A string of the model is the text of a JavaScript string in UTF-8, one \<open>char\<close> a
  byte. \<open>utf16_length\<close> is its \<^verbatim>\<open>length\<close>, the number of UTF-16 code units: one
  for every byte that starts a character and one more for a character of four
  bytes. \<open>first_character\<close> is its first character.
\<close>

definition utf16_length :: "string \<Rightarrow> nat" where
  "utf16_length s =
     length (filter (\<lambda>c. of_char c < (0x80 :: nat) \<or> (0xC0 :: nat) \<le> of_char c) s) +
     length (filter (\<lambda>c. (0xF0 :: nat) \<le> of_char c) s)"

definition first_character :: "string \<Rightarrow> string" where
  "first_character s =
     (case s of
        [] \<Rightarrow> []
      | c # _ \<Rightarrow>
          take (if of_char c < (0x80 :: nat) then 1
                else if of_char c < (0xE0 :: nat) then 2
                else if of_char c < (0xF0 :: nat) then 3 else 4) s)"

text \<open>\<^verbatim>\<open>v?.[0]\<close>: the first element of an array, the first character of a string
  (for a character beyond U+FFFF JavaScript gives its first surrogate alone, which
  no text holds: the character stands for it), the property \<open>0\<close> of an object.\<close>

fun opt_index0 :: "json option \<Rightarrow> json option" where
  "opt_index0 (Some (JArr xs)) = (case xs of [] \<Rightarrow> None | x # _ \<Rightarrow> Some x)"
| "opt_index0 (Some (JStr s)) =
     (case s of [] \<Rightarrow> None | c # _ \<Rightarrow> Some (JStr (first_character s)))"
| "opt_index0 (Some (JObj kvs)) = map_of kvs ''0''"
| "opt_index0 _ = None"

text \<open>\<^verbatim>\<open>Object.keys(v).length\<close> for a value that is not \<open>null\<close>.\<close>

fun object_keys_length :: "json \<Rightarrow> nat" where
  "object_keys_length (JObj kvs) = length (remdups (map fst kvs))"
| "object_keys_length (JArr xs) = length xs"
| "object_keys_length (JStr s) = utf16_length s"
| "object_keys_length _ = 0"

text \<open>Decimal text of a number, as \<^verbatim>\<open>String(n)\<close> and a template literal give it.\<close>

fun dec_nat :: "nat \<Rightarrow> string" where
  "dec_nat n =
     (if n < 10 then [''0123456789'' ! n]
      else dec_nat (n div 10) @ [''0123456789'' ! (n mod 10)])"

declare dec_nat.simps [simp del]

definition dec_int :: "int \<Rightarrow> string" where
  "dec_int i = (if i < 0 then CHR ''-'' # dec_nat (nat (- i)) else dec_nat (nat i))"

fun join :: "string \<Rightarrow> string list \<Rightarrow> string" where
  "join sep [] = []"
| "join sep [x] = x"
| "join sep (x # y # ys) = x @ sep @ join sep (y # ys)"

text \<open>
  The texts of the elements of an array joined by commas, as \<^verbatim>\<open>Array.prototype.join\<close>
  does it: the elements are converted in order and the first conversion that
  throws ends the join.
\<close>

fun join_texts :: "(js_error + string) list \<Rightarrow> js_error + string" where
  "join_texts [] = Inr []"
| "join_texts (r # rs) =
     (case r of
        Inl e \<Rightarrow> Inl e
      | Inr t \<Rightarrow>
          (case join_texts rs of
             Inl e \<Rightarrow> Inl e
           | Inr u \<Rightarrow> Inr (if rs = [] then t else t @ '','' @ u)))"

text \<open>
  \<^verbatim>\<open>`${v}`\<close>: the string a template literal interpolates for a value, or the
  \<^verbatim>\<open>TypeError\<close> the conversion throws. An object is converted by its \<open>toString\<close>:
  the inherited one gives \<open>[object Object]\<close>; an own property \<open>toString\<close> hides it,
  is never callable in a value made of JSON, and the conversion throws. An array
  joins the texts of its elements, with the empty text for \<open>null\<close>.
\<close>

fun js_string :: "json option \<Rightarrow> js_error + string" where
  "js_string None = Inr ''undefined''"
| "js_string (Some JNull) = Inr ''null''"
| "js_string (Some (JBool b)) = Inr (if b then ''true'' else ''false'')"
| "js_string (Some (JNum n)) = Inr (dec_int (int_of n))"
| "js_string (Some (JStr s)) = Inr s"
| "js_string (Some (JArr xs)) =
     join_texts (map (\<lambda>x. if x = JNull then Inr [] else js_string (Some x)) xs)"
| "js_string (Some (JObj kvs)) =
     (if ''toString'' \<in> fst ` set kvs
      then Inl (JsError ''Cannot convert object to primitive value'')
      else Inr ''[object Object]'')"

section \<open>Execution types (src/types/execution.ts)\<close>

text \<open>
  The interfaces of the source, field by field. A field name that two interfaces
  share is prefixed in the second (\<open>res_\<close> for \<open>ExecutionResult\<close>, \<open>req_\<close> for
  \<open>ExecutionRequest\<close>); \<open>http_method\<close> is the field \<^verbatim>\<open>method\<close> of \<open>apiCall\<close>.
\<close>

datatype spec_status = Pending | Executing | Success | Error

datatype result_status = ResSuccess | ResError

record ApiCall =
  http_method :: string
  url :: string
  params :: "(string \<times> string) list option"
  headers :: "(string \<times> string) list option"

text \<open>
  \<open>timestamp\<close> is the ISO text \<^verbatim>\<open>new Date().toISOString()\<close> writes; it is held as the
  millisecond count that \<^verbatim>\<open>new Date(timestamp).getTime()\<close> reads back from it.
\<close>

record ExecutionSpec =
  executionId :: string
  toolName :: string
  parameters :: "(string \<times> json) list"
  apiCall :: ApiCall
  timestamp :: int
  status :: spec_status
  ttl :: "int option"

record ExecutionResult =
  res_executionId :: string
  res_status :: result_status
  recordCount :: "nat option"
  data :: "json option"
  error :: "string option"
  executedAt :: "int option"

record ExecutionRequest =
  req_toolName :: string
  req_parameters :: "(string \<times> json) list"

section \<open>HybridExecutionService\<close>

definition ABS_API_BASE :: string where
  "ABS_API_BASE = ''https://data.api.abs.gov.au''"

definition DEFAULT_TTL :: int where
  "DEFAULT_TTL = 15 * 60 * 1000"

text \<open>
  The service object: \<open>executions\<close> is the \<^verbatim>\<open>Map\<close> from execution identifier to
  spec, as the list of its entries in insertion order (\<^verbatim>\<open>Map.set\<close> is
  \<^const>\<open>AList.update\<close>, \<^verbatim>\<open>Map.get\<close> is \<^const>\<open>map_of\<close>, \<^verbatim>\<open>Map.delete\<close> is
  \<^const>\<open>AList.delete\<close>; a \<^verbatim>\<open>Map\<close> holds each key once, so the keys of the list
  are distinct). \<open>requests\<close> records the effect on the network: the URLs
  \<^verbatim>\<open>axios.get\<close> was called with, oldest first.
\<close>

record service =
  executions :: "(string \<times> ExecutionSpec) list"
  requests :: "string list"

definition new_service :: service where
  "new_service = \<lparr>executions = [], requests = []\<rparr>"

definition buildApiCall :: "string \<Rightarrow> (string \<times> json) list \<Rightarrow> js_error + ApiCall" where
  "buildApiCall tool ps =
     (if tool = ''query_dataset'' then
        (case js_string (map_of ps ''datasetId'') of
           Inl e \<Rightarrow> Inl e
         | Inr t \<Rightarrow>
             Inr \<lparr>http_method = ''GET'',
                  url = ABS_API_BASE @ ''/rest/data/'' @ t @ ''/all'',
                  params = Some [(''format'', ''jsondata''),
                                 (''dimensionAtObservation'', ''AllDimensions'')],
                  headers = None\<rparr>)
      else Inl (JsError (''Unknown tool: '' @ tool)))"

text \<open>
  \<open>uuid\<close> is what \<^verbatim>\<open>crypto.randomUUID()\<close> returns in this call and \<open>now\<close> the clock
  reading of \<^verbatim>\<open>new Date()\<close>. A thrown error is \<open>Inl\<close>; the service is then as it
  was before the call.
\<close>

definition generateExecutionSpec ::
  "string \<Rightarrow> int \<Rightarrow> ExecutionRequest \<Rightarrow> service \<Rightarrow> js_error + (ExecutionSpec \<times> service)" where
  "generateExecutionSpec uuid now request s =
     (case buildApiCall (req_toolName request) (req_parameters request) of
        Inl e \<Rightarrow> Inl e
      | Inr call \<Rightarrow>
          (let spec = \<lparr>executionId = uuid,
                       toolName = req_toolName request,
                       parameters = req_parameters request,
                       apiCall = call,
                       timestamp = now,
                       status = Pending,
                       ttl = Some DEFAULT_TTL\<rparr>
           in Inr (spec, s\<lparr>executions := AList.update uuid spec (executions s)\<rparr>)))"

definition getExecutionSpec :: "service \<Rightarrow> string \<Rightarrow> ExecutionSpec option" where
  "getExecutionSpec s eid = map_of (executions s) eid"

text \<open>\<^verbatim>\<open>new URLSearchParams(ps).toString()\<close>: the pairs form-urlencoded and joined.\<close>

definition form_encode_char :: "char \<Rightarrow> string" where
  "form_encode_char c =
     (if c \<in> set ''ABCDEFGHIJKLMNOPQRSTUVWXYZabcdefghijklmnopqrstuvwxyz0123456789*-._'' then [c]
      else if c = CHR '' '' then ''+''
      else [CHR ''%'', ''0123456789ABCDEF'' ! (of_char c div 16),
            ''0123456789ABCDEF'' ! (of_char c mod 16)])"

definition url_search_params :: "(string \<times> string) list \<Rightarrow> string" where
  "url_search_params ps =
     join ''&'' (map (\<lambda>(k, v). concat (map form_encode_char k) @ ''='' @
                                 concat (map form_encode_char v)) ps)"

text \<open>The record count of a response body:
  \<^verbatim>\<open>response.data?.data?.dataSets?.[0]?.observations\<close>, then the number of its keys.\<close>

definition record_count :: "json \<Rightarrow> nat" where
  "record_count body =
     (let observations =
        opt_prop (opt_index0 (opt_prop (opt_prop (Some body) ''data'') ''dataSets''))
          ''observations''
      in case observations of
           None \<Rightarrow> 0
         | Some v \<Rightarrow> if truthy (Some v) then object_keys_length v else 0)"

text \<open>\<^verbatim>\<open>spec.status = st\<close> on the spec object the map holds under \<open>eid\<close>.\<close>

definition set_status :: "string \<Rightarrow> spec_status \<Rightarrow> service \<Rightarrow> service" where
  "set_status eid st s =
     s\<lparr>executions := AList.map_entry eid (\<lambda>spec. spec\<lparr>status := st\<rparr>) (executions s)\<rparr>"

text \<open>The URL \<open>executeSpec\<close> requests for a spec:
  \<^verbatim>\<open>`${spec.apiCall.url}?${new URLSearchParams(spec.apiCall.params || {})}`\<close>.\<close>

definition request_url :: "ExecutionSpec \<Rightarrow> string" where
  "request_url spec =
     url (apiCall spec) @ ''?'' @
     url_search_params (case params (apiCall spec) of None \<Rightarrow> [] | Some ps \<Rightarrow> ps)"

text \<open>
  \<open>executeSpec\<close> up to its \<^verbatim>\<open>await\<close>: the lookup, the early return when the spec
  is absent (\<open>Inl\<close>), the status \<open>executing\<close>, the URL, and the request issued.
\<close>

definition executeSpec_begin :: "string \<Rightarrow> service \<Rightarrow> ExecutionResult + (string \<times> service)" where
  "executeSpec_begin eid s =
     (case map_of (executions s) eid of
        None \<Rightarrow>
          Inl \<lparr>res_executionId = eid, res_status = ResError, recordCount = None,
               data = None, error = Some ''Execution spec not found'', executedAt = None\<rparr>
      | Some spec \<Rightarrow>
          (let s1 = set_status eid Executing s;
               u = request_url spec
           in Inr (u, s1\<lparr>requests := requests s1 @ [u]\<rparr>)))"

text \<open>
  \<open>executeSpec\<close> after the \<^verbatim>\<open>await\<close>. The outcome of \<^verbatim>\<open>axios.get\<close> is \<open>Inr body\<close>
  for a response with that body and \<open>Inl msg\<close> for a rejection whose description
  (\<^verbatim>\<open>error.message\<close>, or \<^verbatim>\<open>String(error)\<close>) is \<open>msg\<close>; the \<^verbatim>\<open>catch\<close> turns the
  latter into a result.
\<close>

definition executeSpec_end ::
  "string \<Rightarrow> int \<Rightarrow> string + json \<Rightarrow> service \<Rightarrow> ExecutionResult \<times> service" where
  "executeSpec_end eid now outcome s =
     (case outcome of
        Inr body \<Rightarrow>
          (\<lparr>res_executionId = eid, res_status = ResSuccess,
            recordCount = Some (record_count body), data = None, error = None,
            executedAt = Some now\<rparr>,
           set_status eid Success s)
      | Inl msg \<Rightarrow>
          (\<lparr>res_executionId = eid, res_status = ResError, recordCount = None,
            data = None, error = Some msg, executedAt = None\<rparr>,
           set_status eid Error s))"

text \<open>One uninterrupted call of \<open>executeSpec\<close>; \<open>axios_get\<close> is the remote side at
  the time of the call.\<close>

definition executeSpec ::
  "(string \<Rightarrow> string + json) \<Rightarrow> int \<Rightarrow> string \<Rightarrow> service \<Rightarrow> ExecutionResult \<times> service" where
  "executeSpec axios_get now eid s =
     (case executeSpec_begin eid s of
        Inl r \<Rightarrow> (r, s)
      | Inr (u, s1) \<Rightarrow> executeSpec_end eid now (axios_get u) s1)"

text \<open>The loop over \<^verbatim>\<open>this.executions.entries()\<close>, deleting as it goes; \<open>None\<close> for
  \<open>maxAge\<close> is the omitted argument.\<close>

definition cleanupOldSpecs :: "int \<Rightarrow> int option \<Rightarrow> service \<Rightarrow> service" where
  "cleanupOldSpecs now maxAge s =
     (let m = (case maxAge of None \<Rightarrow> DEFAULT_TTL | Some a \<Rightarrow> a)
      in s\<lparr>executions :=
             fold (\<lambda>(eid, spec) es.
                     let specAge = now - timestamp spec
                     in if specAge > m then AList.delete eid es else es)
               (executions s) (executions s)\<rparr>)"

text \<open>The \<open>Age\<close> and \<open>Expires In\<close> cells of a row of \<open>getExecutionsTable\<close>.\<close>

definition formatDuration :: "int \<Rightarrow> string" where
  "formatDuration ms =
     (let seconds = ms div 1000; minutes = seconds div 60; hours = minutes div 60
      in if hours > 0 then dec_int hours @ ''h '' @ dec_int (minutes mod 60) @ ''m''
         else if minutes > 0 then dec_int minutes @ ''m '' @ dec_int (seconds mod 60) @ ''s''
         else dec_int seconds @ ''s'')"

definition expires_in :: "int \<Rightarrow> ExecutionSpec \<Rightarrow> int" where
  "expires_in now spec =
     (let age = now - timestamp spec;
          t = (case ttl spec of None \<Rightarrow> DEFAULT_TTL
               | Some t \<Rightarrow> if t = 0 then DEFAULT_TTL else t)
      in max 0 (t - age))"

definition expires_in_cell :: "int \<Rightarrow> ExecutionSpec \<Rightarrow> string" where
  "expires_in_cell now spec =
     (if expires_in now spec > 0 then formatDuration (expires_in now spec) else ''EXPIRED'')"

text \<open>
  A sequence of \<open>generateExecutionSpec\<close> calls, each with the identifier
  \<^verbatim>\<open>crypto.randomUUID()\<close> gave it, its clock reading and its request; the specs
  returned, in order, and the service at the end. A call that throws returns no
  spec.
\<close>

fun generate_run ::
  "(string \<times> int \<times> ExecutionRequest) list \<Rightarrow> service \<Rightarrow> ExecutionSpec list \<times> service" where
  "generate_run [] s = ([], s)"
| "generate_run ((uuid, now, request) # cs) s =
     (case generateExecutionSpec uuid now request s of
        Inl e \<Rightarrow> generate_run cs s
      | Inr (spec, s') \<Rightarrow>
          (case generate_run cs s' of (specs, s'') \<Rightarrow> (spec # specs, s'')))"

section \<open>The tool handler of the server (src/index.ts)\<close>

text \<open>The own properties of the \<open>args\<close> value passed on as \<open>parameters\<close>.\<close>

fun own_properties :: "json option \<Rightarrow> (string \<times> json) list" where
  "own_properties (Some (JObj kvs)) = kvs"
| "own_properties _ = []"

text \<open>
  \<open>handleQueryDataset\<close>: the guard on \<open>args\<close>, then the spec from the service. The
  handler's response carries the spec (as \<open>_meta\<close>, and as JSON text); the model
  returns the spec.
\<close>

definition handleQueryDataset ::
  "string \<Rightarrow> int \<Rightarrow> json option \<Rightarrow> service \<Rightarrow> js_error + (ExecutionSpec \<times> service)" where
  "handleQueryDataset uuid now args s =
     (if \<not> truthy (opt_prop args ''datasetId'') \<or>
         typeof (opt_prop args ''datasetId'') \<noteq> ''string''
      then Inl (JsError ''datasetId is required and must be a string'')
      else generateExecutionSpec uuid now
             \<lparr>req_toolName = ''query_dataset'', req_parameters = own_properties args\<rparr> s)"

section \<open>HybridMCPClient\<close>

record MCPRequest =
  rq_id :: int
  rq_method :: string
  rq_params :: "json option"

text \<open>The state of the promise \<open>sendRequest\<close> returns.\<close>

datatype promise = Unsettled | Resolved json | Rejected string

text \<open>
  What one \<open>sendRequest\<close> creates beside its table entry: the identifier its
  closures captured, its promise, and whether its 30 second timer is still armed.
\<close>

record call =
  call_id :: int
  outcome :: promise
  timer :: bool

text \<open>
  The client object. \<open>server\<close> is \<^verbatim>\<open>this.server !== null\<close>. A response handler is
  the closure of one call, so \<open>responseHandlers\<close> maps an identifier to the index of
  that call in \<open>calls\<close>, the calls made so far in order. \<open>sent\<close> is what was written
  to the server's standard input, oldest first; \<open>calls\<close> and \<open>sent\<close> are not fields
  of the object and no method clears them.
\<close>

record client =
  server :: bool
  messageId :: int
  responseHandlers :: "(int \<times> nat) list"
  buffer :: string
  initialized :: bool
  calls :: "call list"
  sent :: "MCPRequest list"

definition new_client :: client where
  "new_client = \<lparr>server = False, messageId = 0, responseHandlers = [], buffer = [],
                  initialized = False, calls = [], sent = []\<rparr>"

text \<open>\<^verbatim>\<open>++n\<close> on a number that counts up from 0: exact below \<open>2^53\<close>, where the double
  stays as it is.\<close>

definition js_incr :: "int \<Rightarrow> int" where
  "js_incr n = (if n < 2 ^ 53 then n + 1 else n)"

text \<open>The part of \<open>connect\<close> before its first \<^verbatim>\<open>await\<close>.\<close>

definition connect_spawn :: "client \<Rightarrow> js_error + client" where
  "connect_spawn c =
     (if server c then Inl (JsError ''Client already connected'')
      else Inr (c\<lparr>server := True\<rparr>))"

text \<open>\<open>sendRequest\<close> returns its promise: the index of the new call.\<close>

definition sendRequest :: "string \<Rightarrow> json option \<Rightarrow> client \<Rightarrow> js_error + (nat \<times> client)" where
  "sendRequest m ps c =
     (if \<not> server c then Inl (JsError ''Client not connected'')
      else
        (let i = js_incr (messageId c);
             p = length (calls c)
         in Inr (p, c\<lparr>messageId := i,
                      calls := calls c @ [\<lparr>call_id = i, outcome = Unsettled, timer = True\<rparr>],
                      responseHandlers := AList.update i p (responseHandlers c),
                      sent := sent c @ [\<lparr>rq_id = i, rq_method = m, rq_params = ps\<rparr>]\<rparr>)))"

text \<open>\<^verbatim>\<open>resolve\<close> and \<^verbatim>\<open>reject\<close> of the promise of call \<open>p\<close>: a settled promise stays.\<close>

definition settle :: "nat \<Rightarrow> promise \<Rightarrow> client \<Rightarrow> client" where
  "settle p v c =
     (if p < length (calls c) \<and> outcome (calls c ! p) = Unsettled
      then c\<lparr>calls := (calls c)[p := (calls c ! p)\<lparr>outcome := v\<rparr>]\<rparr>
      else c)"

definition clearTimeout :: "nat \<Rightarrow> client \<Rightarrow> client" where
  "clearTimeout p c =
     (if p < length (calls c)
      then c\<lparr>calls := (calls c)[p := (calls c ! p)\<lparr>timer := False\<rparr>]\<rparr>
      else c)"

text \<open>The handler \<open>sendRequest\<close> registers for call \<open>p\<close>.\<close>

definition run_handler :: "nat \<Rightarrow> json \<Rightarrow> client \<Rightarrow> client" where
  "run_handler p response c = settle p (Resolved response) (clearTimeout p c)"

text \<open>The callback of the timer of call \<open>p\<close>, run when its 30 seconds are over
  (never for a cleared timer).\<close>

definition fire_timeout :: "nat \<Rightarrow> client \<Rightarrow> client" where
  "fire_timeout p c =
     (if p < length (calls c) \<and> timer (calls c ! p) then
        (let c1 = clearTimeout p c; i = call_id (calls c ! p)
         in if map_of (responseHandlers c1) i \<noteq> None
            then settle p (Rejected ''Request timeout'')
                   (c1\<lparr>responseHandlers := AList.delete i (responseHandlers c1)\<rparr>)
            else c1)
      else c)"

text \<open>\<open>handleResponse\<close>; reading \<open>id\<close> of \<open>null\<close> throws.\<close>

definition handleResponse :: "json \<Rightarrow> client \<Rightarrow> js_error + client" where
  "handleResponse response c =
     (if response = JNull
      then Inl (JsError ''Cannot read properties of null'')
      else
        (case opt_prop (Some response) ''id'' of
           Some (JNum i) \<Rightarrow>
             (if truthy (Some (JNum i)) then
                (case map_of (responseHandlers c) (int_of i) of
                   Some p \<Rightarrow>
                     Inr (run_handler p response
                            (c\<lparr>responseHandlers :=
                                 AList.delete (int_of i) (responseHandlers c)\<rparr>))
                 | None \<Rightarrow> Inr c)
              else Inr c)
         | _ \<Rightarrow> Inr c))"

text \<open>\<^verbatim>\<open>s.split('\n')\<close>.\<close>

fun split_nl :: "string \<Rightarrow> string list" where
  "split_nl [] = [[]]"
| "split_nl (x # xs) =
     (if x = CHR 0x0A then [] # split_nl xs
      else (case split_nl xs of [] \<Rightarrow> [[x]] | l # ls \<Rightarrow> (x # l) # ls))"

text \<open>\<^verbatim>\<open>s.trim()\<close>, on the ASCII white space.\<close>

definition js_space :: "char \<Rightarrow> bool" where
  "js_space x = (x \<in> set [CHR 0x09, CHR 0x0A, CHR 0x0B, CHR 0x0C, CHR 0x0D, CHR 0x20])"

definition trim :: "string \<Rightarrow> string" where
  "trim s = rev (dropWhile js_space (rev (dropWhile js_space s)))"

text \<open>
  The body of the loop of \<open>handleData\<close> for one line. \<open>parse\<close> is \<^verbatim>\<open>JSON.parse\<close>:
  \<open>None\<close> where it throws. The \<^verbatim>\<open>catch\<close> ignores whatever is thrown.
\<close>

definition handle_line :: "(string \<Rightarrow> json option) \<Rightarrow> string \<Rightarrow> client \<Rightarrow> client" where
  "handle_line parse line c =
     (if trim line \<noteq> [] then
        (case parse line of
           None \<Rightarrow> c
         | Some response \<Rightarrow> (case handleResponse response c of Inl e \<Rightarrow> c | Inr c' \<Rightarrow> c'))
      else c)"

definition handleData :: "(string \<Rightarrow> json option) \<Rightarrow> string \<Rightarrow> client \<Rightarrow> client" where
  "handleData parse chunk c =
     (let lines = split_nl (buffer c @ chunk)
      in fold (handle_line parse) (butlast lines) (c\<lparr>buffer := last lines\<rparr>))"

text \<open>
  \<^verbatim>\<open>data.toString()\<close> on the bytes of one \<^verbatim>\<open>Buffer\<close>: the UTF-8 decoder. A
  well-formed sequence is the character it encodes; every other byte, and every
  sequence cut short by a wrong byte or by the end of the bytes, becomes U+FFFD
  (in UTF-8: EF BF BD). The decoder keeps nothing from one call to the next.
\<close>

definition byte_in :: "nat \<Rightarrow> nat \<Rightarrow> char \<Rightarrow> bool" where
  "byte_in lo hi b = (lo \<le> of_char b \<and> of_char b \<le> hi)"

definition replacement :: string where
  "replacement = [CHR 0xEF, CHR 0xBF, CHR 0xBD]"

fun buffer_toString :: "string \<Rightarrow> string" where
  "buffer_toString [] = []"
| "buffer_toString (b # bs) =
     (if byte_in 0x00 0x7F b then b # buffer_toString bs
      else if byte_in 0xC2 0xDF b then
        (case bs of
           [] \<Rightarrow> replacement
         | b1 # r1 \<Rightarrow>
             if byte_in 0x80 0xBF b1 then b # b1 # buffer_toString r1
             else replacement @ buffer_toString bs)
      else if byte_in 0xE0 0xEF b then
        (case bs of
           [] \<Rightarrow> replacement
         | b1 # r1 \<Rightarrow>
             if byte_in (if b = CHR 0xE0 then 0xA0 else 0x80)
                  (if b = CHR 0xED then 0x9F else 0xBF) b1
             then
               (case r1 of
                  [] \<Rightarrow> replacement
                | b2 # r2 \<Rightarrow>
                    if byte_in 0x80 0xBF b2 then b # b1 # b2 # buffer_toString r2
                    else replacement @ buffer_toString r1)
             else replacement @ buffer_toString bs)
      else if byte_in 0xF0 0xF4 b then
        (case bs of
           [] \<Rightarrow> replacement
         | b1 # r1 \<Rightarrow>
             if byte_in (if b = CHR 0xF0 then 0x90 else 0x80)
                  (if b = CHR 0xF4 then 0x8F else 0xBF) b1
             then
               (case r1 of
                  [] \<Rightarrow> replacement
                | b2 # r2 \<Rightarrow>
                    if byte_in 0x80 0xBF b2 then
                      (case r2 of
                         [] \<Rightarrow> replacement
                       | b3 # r3 \<Rightarrow>
                           if byte_in 0x80 0xBF b3
                           then b # b1 # b2 # b3 # buffer_toString r3
                           else replacement @ buffer_toString r2)
                    else replacement @ buffer_toString r1)
             else replacement @ buffer_toString bs)
      else replacement @ buffer_toString bs)"

text \<open>The listener \<open>connect\<close> puts on the server's standard output: each chunk
  of bytes is decoded on its own and handed to \<open>handleData\<close>.\<close>

definition stdout_data :: "(string \<Rightarrow> json option) \<Rightarrow> string \<Rightarrow> client \<Rightarrow> client" where
  "stdout_data parse bytes c = handleData parse (buffer_toString bytes) c"

text \<open>The end of \<open>initialize\<close>, once the response to its request is there.\<close>

definition initialize_done :: "json \<Rightarrow> client \<Rightarrow> js_error + client" where
  "initialize_done response c =
     (if truthy (opt_prop (Some response) ''error'')
      then (case js_string (opt_prop (opt_prop (Some response) ''error'') ''message'') of
              Inl e \<Rightarrow> Inl e
            | Inr t \<Rightarrow> Inl (JsError (''Failed to initialize: '' @ t)))
      else Inr (c\<lparr>initialized := True\<rparr>))"

definition cleanup :: "client \<Rightarrow> client" where
  "cleanup c = c\<lparr>responseHandlers := [], initialized := False, buffer := [], messageId := 0\<rparr>"

definition close :: "client \<Rightarrow> client" where
  "close c = (let c1 = cleanup c in if server c1 then c1\<lparr>server := False\<rparr> else c1)"

text \<open>
  What can happen to a client, and a run of such events from a state. A method
  that throws leaves the client as it was.
\<close>

datatype event =
    Spawn
  | Send string "json option"
  | Data string
  | Timeout nat
  | Close
  | Exit

fun step :: "(string \<Rightarrow> json option) \<Rightarrow> event \<Rightarrow> client \<Rightarrow> client" where
  "step parse Spawn c = (case connect_spawn c of Inl e \<Rightarrow> c | Inr c' \<Rightarrow> c')"
| "step parse (Send m ps) c = (case sendRequest m ps c of Inl e \<Rightarrow> c | Inr (p, c') \<Rightarrow> c')"
| "step parse (Data chunk) c = handleData parse chunk c"
| "step parse (Timeout p) c = fire_timeout p c"
| "step parse Close c = close c"
| "step parse Exit c = cleanup c"

definition run :: "(string \<Rightarrow> json option) \<Rightarrow> event list \<Rightarrow> client \<Rightarrow> client" where
  "run parse es c = fold (step parse) es c"

section \<open>Properties of the execution service\<close>

lemmas service_eval =
  generate_run.simps generateExecutionSpec_def buildApiCall_def Let_def new_service_def
  executeSpec_def executeSpec_begin_def executeSpec_end_def set_status_def request_url_def
  url_search_params_def form_encode_char_def record_count_def cleanupOldSpecs_def
  ABS_API_BASE_def DEFAULT_TTL_def

lemma map_of_set_status:
  "map_of (executions (set_status eid st s)) k =
     (if k = eid then map_option (\<lambda>spec. spec\<lparr>status := st\<rparr>) (map_of (executions s) k)
      else map_of (executions s) k)"
  by (simp add: set_status_def map_of_map_entry split: option.split)

lemma keys_map_entry: "map fst (AList.map_entry k f xs) = map fst xs"
  by (induction xs) auto

lemma keys_set_status: "map fst (executions (set_status eid st s)) = map fst (executions s)"
  by (simp add: set_status_def keys_map_entry)

lemma requests_set_status: "requests (set_status eid st s) = requests s"
  by (simp add: set_status_def)

text \<open>
  C1: the result of \<open>executeSpec\<close> never carries the payload: \<open>data\<close> is absent for
  every identifier, service state, clock reading and remote behaviour. A success
  result has exactly the identifier, the status, the record count and the
  completion time; an error result exactly the identifier, the status and the
  error description.
\<close>

theorem executeSpec_metadata_only:
  "data (fst (executeSpec axios_get now eid s)) = None \<and>
   res_executionId (fst (executeSpec axios_get now eid s)) = eid \<and>
   (case res_status (fst (executeSpec axios_get now eid s)) of
      ResSuccess \<Rightarrow>
        (\<exists>n. fst (executeSpec axios_get now eid s) =
           \<lparr>res_executionId = eid, res_status = ResSuccess, recordCount = Some n,
            data = None, error = None, executedAt = Some now\<rparr>)
    | ResError \<Rightarrow>
        (\<exists>msg. fst (executeSpec axios_get now eid s) =
           \<lparr>res_executionId = eid, res_status = ResError, recordCount = None,
            data = None, error = Some msg, executedAt = None\<rparr>))"
  by (simp add: executeSpec_def executeSpec_begin_def executeSpec_end_def Let_def
      split: option.split sum.split)

theorem executeSpec_metadata_only_witness:
  "fst (executeSpec
     (\<lambda>u. Inr (JObj [(''data'', JObj [(''dataSets'',
        JArr [JObj [(''observations'', JObj [(''0:0'', JArr [JNum (exact 1)]), (''0:1'', JArr [JNum (exact 2)])])]])])]))
     9 ''u1''
     (snd (generate_run
        [(''u1'', 3, \<lparr>req_toolName = ''query_dataset'',
                       req_parameters = [(''datasetId'', JStr ''X'')]\<rparr>)] new_service))) =
   \<lparr>res_executionId = ''u1'', res_status = ResSuccess, recordCount = Some 2,
    data = None, error = None, executedAt = Some 9\<rparr>"
  using executeSpec_metadata_only [of
     "\<lambda>u. Inr (JObj [(''data'', JObj [(''dataSets'',
        JArr [JObj [(''observations'', JObj [(''0:0'', JArr [JNum (exact 1)]), (''0:1'', JArr [JNum (exact 2)])])]])])])"
     9 "''u1''"
     "snd (generate_run
        [(''u1'', 3, \<lparr>req_toolName = ''query_dataset'',
                       req_parameters = [(''datasetId'', JStr ''X'')]\<rparr>)] new_service)"]
  by (simp add: service_eval)

lemma fold_delete_filter:
  "fold (\<lambda>(k, v) es. if P v then AList.delete k es else es) xs es =
   filter (\<lambda>(k, v). k \<notin> fst ` {e \<in> set xs. P (snd e)}) es"
proof (induction xs arbitrary: es)
  case Nil
  then show ?case by simp
next
  case (Cons x xs)
  obtain k v where x: "x = (k, v)" by (cases x)
  show ?case
  proof (cases "P v")
    case True
    have "fold (\<lambda>(k, v) es. if P v then AList.delete k es else es) (x # xs) es =
          filter (\<lambda>(k', v'). k' \<notin> fst ` {e \<in> set xs. P (snd e)}) (AList.delete k es)"
      using Cons.IH [of "AList.delete k es"] True x by simp
    also have "\<dots> = filter (\<lambda>(k', v'). k' \<notin> fst ` {e \<in> set (x # xs). P (snd e)}) es"
    proof -
      have "fst ` {e \<in> set (x # xs). P (snd e)} = insert k (fst ` {e \<in> set xs. P (snd e)})"
        using True x by force
      then show ?thesis
        by (auto simp: AList.delete_eq intro!: filter_cong)
    qed
    finally show ?thesis .
  next
    case False
    have "{e \<in> set (x # xs). P (snd e)} = {e \<in> set xs. P (snd e)}"
      using False x by auto
    then show ?thesis
      using Cons.IH [of es] False x by simp
  qed
qed

lemma filter_keys_distinct:
  assumes "distinct (map fst xs)"
  shows "filter (\<lambda>(k, v). k \<notin> fst ` {e \<in> set xs. P (snd e)}) xs =
         filter (\<lambda>(k, v). \<not> P v) xs"
proof (rule filter_cong [OF refl])
  fix e assume e: "e \<in> set xs"
  obtain k v where kv: "e = (k, v)" by (cases e)
  have "k \<in> fst ` {e \<in> set xs. P (snd e)} \<longleftrightarrow> P v"
  proof
    assume "k \<in> fst ` {e \<in> set xs. P (snd e)}"
    then obtain v' where "(k, v') \<in> set xs" "P v'" by auto
    with assms e kv have "v' = v" by (meson eq_key_imp_eq_value)
    with \<open>P v'\<close> show "P v" by simp
  next
    assume "P v"
    with e kv show "k \<in> fst ` {e \<in> set xs. P (snd e)}" by force
  qed
  then show "(case e of (k, v) \<Rightarrow> k \<notin> fst ` {e \<in> set xs. P (snd e)}) =
             (case e of (k, v) \<Rightarrow> \<not> P v)"
    using kv by simp
qed

lemma cleanupOldSpecs_filter:
  assumes "distinct (map fst (executions s))"
  shows "executions (cleanupOldSpecs now maxAge s) =
         filter (\<lambda>(k, spec). \<not> now - timestamp spec > (case maxAge of None \<Rightarrow> DEFAULT_TTL | Some a \<Rightarrow> a))
           (executions s)"
  using filter_keys_distinct [OF assms, of "\<lambda>spec. now - timestamp spec > (case maxAge of None \<Rightarrow> DEFAULT_TTL | Some a \<Rightarrow> a)"]
  by (simp add: cleanupOldSpecs_def Let_def fold_delete_filter)


lemma generateExecutionSpec_query:
  assumes "js_string (map_of ps ''datasetId'') = Inr t"
  shows "generateExecutionSpec uuid now \<lparr>req_toolName = ''query_dataset'', req_parameters = ps\<rparr> s =
     Inr (\<lparr>executionId = uuid, toolName = ''query_dataset'', parameters = ps,
           apiCall = \<lparr>http_method = ''GET'',
                      url = ABS_API_BASE @ ''/rest/data/'' @ t @ ''/all'',
                      params = Some [(''format'', ''jsondata''),
                                     (''dimensionAtObservation'', ''AllDimensions'')],
                      headers = None\<rparr>,
           timestamp = now, status = Pending, ttl = Some DEFAULT_TTL\<rparr>,
          s\<lparr>executions := AList.update uuid
               \<lparr>executionId = uuid, toolName = ''query_dataset'', parameters = ps,
                apiCall = \<lparr>http_method = ''GET'',
                      url = ABS_API_BASE @ ''/rest/data/'' @ t @ ''/all'',
                      params = Some [(''format'', ''jsondata''),
                                     (''dimensionAtObservation'', ''AllDimensions'')],
                      headers = None\<rparr>,
                timestamp = now, status = Pending, ttl = Some DEFAULT_TTL\<rparr> (executions s)\<rparr>)"
  using assms by (simp add: generateExecutionSpec_def buildApiCall_def Let_def)

lemma generateExecutionSpec_throws:
  "js_string (map_of ps ''datasetId'') = Inl e \<Longrightarrow>
   generateExecutionSpec uuid now \<lparr>req_toolName = ''query_dataset'', req_parameters = ps\<rparr> s =
     Inl e"
  by (simp add: generateExecutionSpec_def buildApiCall_def)

lemma generateExecutionSpec_unknown:
  "tool \<noteq> ''query_dataset'' \<Longrightarrow>
   generateExecutionSpec uuid now \<lparr>req_toolName = tool, req_parameters = ps\<rparr> s =
     Inl (JsError (''Unknown tool: '' @ tool))"
  by (simp add: generateExecutionSpec_def buildApiCall_def)

lemma generateExecutionSpec_Inr:
  assumes "generateExecutionSpec uuid now request s = Inr (spec, s')"
  shows "req_toolName request = ''query_dataset''"
    and "executionId spec = uuid"
    and "status spec = Pending"
    and "timestamp spec = now"
    and "ttl spec = Some DEFAULT_TTL"
    and "executions s' = AList.update uuid spec (executions s)"
    and "requests s' = requests s"
  using assms
  by (auto simp: generateExecutionSpec_def buildApiCall_def Let_def split: if_splits sum.splits)







lemma datasetId_guard:
  "(truthy v \<and> typeof v = ''string'') = (\<exists>t. t \<noteq> [] \<and> v = Some (JStr t))"
proof (cases v)
  case None
  then show ?thesis by simp
next
  case (Some j)
  then show ?thesis by (cases j) auto
qed

text \<open>
  C3, as stated, fails: a \<open>query_dataset\<close> request with no \<open>datasetId\<close> at all gets a
  spec from \<open>generateExecutionSpec\<close>, with \<open>undefined\<close> in its URL.
\<close>

theorem generateExecutionSpec_no_datasetId_counterexample:
  "map_of (req_parameters \<lparr>req_toolName = ''query_dataset'', req_parameters = []\<rparr>) ''datasetId'' = None \<and>
   (\<exists>spec s'. generateExecutionSpec ''u1'' 0
        \<lparr>req_toolName = ''query_dataset'', req_parameters = []\<rparr> new_service = Inr (spec, s') \<and>
      url (apiCall spec) = ''https://data.api.abs.gov.au/rest/data/undefined/all'' \<and>
      map_of (executions s') ''u1'' = Some spec)"
  by (simp add: generateExecutionSpec_def buildApiCall_def Let_def ABS_API_BASE_def
      new_service_def)

text \<open>
  C3, amended: \<open>generateExecutionSpec\<close> checks the tool name, not the dataset
  identifier. It throws \<open>Unknown tool\<close> for every name but \<open>query_dataset\<close>; for
  \<open>query_dataset\<close> a request with no \<open>datasetId\<close>, or with a \<open>datasetId\<close> that is any
  string, the empty one included, gets a spec with that text in its URL. The
  check of the dataset identifier is the guard of \<open>handleQueryDataset\<close>, in front of
  it: the handler produces a spec when \<open>args.datasetId\<close> is a non-empty string and
  throws its validation error in every other case.
\<close>

theorem validation_by_tool_and_handler:
  "(tool \<noteq> ''query_dataset'' \<longrightarrow>
      generateExecutionSpec uuid now \<lparr>req_toolName = tool, req_parameters = ps\<rparr> s =
        Inl (JsError (''Unknown tool: '' @ tool))) \<and>
   (map_of ps ''datasetId'' = None \<longrightarrow>
      (\<exists>spec s'. generateExecutionSpec uuid now
           \<lparr>req_toolName = ''query_dataset'', req_parameters = ps\<rparr> s = Inr (spec, s') \<and>
         url (apiCall spec) = ABS_API_BASE @ ''/rest/data/undefined/all'')) \<and>
   (map_of ps ''datasetId'' = Some (JStr d) \<longrightarrow>
      (\<exists>spec s'. generateExecutionSpec uuid now
           \<lparr>req_toolName = ''query_dataset'', req_parameters = ps\<rparr> s = Inr (spec, s') \<and>
         url (apiCall spec) = ABS_API_BASE @ ''/rest/data/'' @ d @ ''/all'')) \<and>
   ((\<exists>t. t \<noteq> [] \<and> opt_prop args ''datasetId'' = Some (JStr t)) \<longrightarrow>
      (\<exists>spec s'. handleQueryDataset uuid now args s = Inr (spec, s') \<and>
         toolName spec = ''query_dataset'' \<and>
         map_of (parameters spec) ''datasetId'' = opt_prop args ''datasetId'')) \<and>
   (\<not> (\<exists>t. t \<noteq> [] \<and> opt_prop args ''datasetId'' = Some (JStr t)) \<longrightarrow>
      handleQueryDataset uuid now args s =
        Inl (JsError ''datasetId is required and must be a string''))"
proof (intro conjI impI)
  assume "tool \<noteq> ''query_dataset''"
  then show "generateExecutionSpec uuid now \<lparr>req_toolName = tool, req_parameters = ps\<rparr> s =
        Inl (JsError (''Unknown tool: '' @ tool))"
    by (rule generateExecutionSpec_unknown)
next
  assume "map_of ps ''datasetId'' = None"
  then have "js_string (map_of ps ''datasetId'') = Inr ''undefined''"
    by simp
  then show "\<exists>spec s'. generateExecutionSpec uuid now
           \<lparr>req_toolName = ''query_dataset'', req_parameters = ps\<rparr> s = Inr (spec, s') \<and>
         url (apiCall spec) = ABS_API_BASE @ ''/rest/data/undefined/all''"
    by (simp add: generateExecutionSpec_query)
next
  assume "map_of ps ''datasetId'' = Some (JStr d)"
  then have "js_string (map_of ps ''datasetId'') = Inr d"
    by simp
  then show "\<exists>spec s'. generateExecutionSpec uuid now
           \<lparr>req_toolName = ''query_dataset'', req_parameters = ps\<rparr> s = Inr (spec, s') \<and>
         url (apiCall spec) = ABS_API_BASE @ ''/rest/data/'' @ d @ ''/all''"
    by (simp add: generateExecutionSpec_query)
next
  assume ok: "\<exists>t. t \<noteq> [] \<and> opt_prop args ''datasetId'' = Some (JStr t)"
  then have guard: "truthy (opt_prop args ''datasetId'') \<and>
      typeof (opt_prop args ''datasetId'') = ''string''"
    using datasetId_guard [of "opt_prop args ''datasetId''"] by blast
  have args: "\<exists>kvs. args = Some (JObj kvs)"
  proof (cases args)
    case None
    with ok show ?thesis by simp
  next
    case (Some j)
    with ok show ?thesis by (cases j) auto
  qed
  then obtain kvs where kvs: "args = Some (JObj kvs)"
    by blast
  from ok kvs obtain t where t: "map_of kvs ''datasetId'' = Some (JStr t)"
    by auto
  then have "js_string (map_of kvs ''datasetId'') = Inr t"
    by simp
  then show "\<exists>spec s'. handleQueryDataset uuid now args s = Inr (spec, s') \<and>
         toolName spec = ''query_dataset'' \<and>
         map_of (parameters spec) ''datasetId'' = opt_prop args ''datasetId''"
    using guard kvs by (simp add: handleQueryDataset_def generateExecutionSpec_query)
next
  assume "\<not> (\<exists>t. t \<noteq> [] \<and> opt_prop args ''datasetId'' = Some (JStr t))"
  then have "\<not> (truthy (opt_prop args ''datasetId'') \<and>
      typeof (opt_prop args ''datasetId'') = ''string'')"
    using datasetId_guard [of "opt_prop args ''datasetId''"] by blast
  then show "handleQueryDataset uuid now args s =
        Inl (JsError ''datasetId is required and must be a string'')"
    by (auto simp: handleQueryDataset_def)
qed

theorem validation_by_tool_and_handler_witness:
  "generateExecutionSpec ''u1'' 3 \<lparr>req_toolName = ''list_dataflows'', req_parameters = []\<rparr>
     new_service = Inl (JsError ''Unknown tool: list_dataflows'') \<and>
   map_of ([] :: (string \<times> json) list) ''datasetId'' = None \<and>
   map_of [(''datasetId'', JStr [])] ''datasetId'' = Some (JStr []) \<and>
   (\<exists>spec s'. generateExecutionSpec ''u1'' 3
        \<lparr>req_toolName = ''query_dataset'', req_parameters = [(''datasetId'', JStr [])]\<rparr>
        new_service = Inr (spec, s') \<and>
      url (apiCall spec) = ''https://data.api.abs.gov.au/rest/data//all'') \<and>
   (\<exists>spec s'. handleQueryDataset ''u1'' 3 (Some (JObj [(''datasetId'', JStr ''X'')])) new_service =
      Inr (spec, s') \<and> map_of (parameters spec) ''datasetId'' = Some (JStr ''X'')) \<and>
   handleQueryDataset ''u1'' 3 (Some (JObj [(''datasetId'', JStr [])])) new_service =
     Inl (JsError ''datasetId is required and must be a string'') \<and>
   handleQueryDataset ''u1'' 3 (Some (JObj [(''datasetId'', JNum (exact 7))])) new_service =
     Inl (JsError ''datasetId is required and must be a string'') \<and>
   handleQueryDataset ''u1'' 3 None new_service =
     Inl (JsError ''datasetId is required and must be a string'')"
  using validation_by_tool_and_handler [of "''list_dataflows''" "''u1''" 3 "[]" new_service
          "[]" "Some (JObj [(''datasetId'', JStr ''X'')])"]
        validation_by_tool_and_handler [of "''list_dataflows''" "''u1''" 3
          "[(''datasetId'', JStr [])]" new_service
          "[]" "Some (JObj [(''datasetId'', JStr [])])"]
        validation_by_tool_and_handler [of "''list_dataflows''" "''u1''" 3 "[]" new_service
          "[]" "Some (JObj [(''datasetId'', JNum (exact 7))])"]
        validation_by_tool_and_handler [of "''list_dataflows''" "''u1''" 3 "[]" new_service
          "[]" None]
  by (simp add: ABS_API_BASE_def) blast

lemma map_of_filter_keys:
  "map_of (filter (\<lambda>(k, v). Q k) es) k = (if Q k then map_of es k else None)"
  by (induction es) auto

lemma cleanupOldSpecs_removes:
  assumes "map_of (executions s) eid = Some spec"
      and "now - timestamp spec > (case maxAge of None \<Rightarrow> DEFAULT_TTL | Some a \<Rightarrow> a)"
  shows "map_of (executions (cleanupOldSpecs now maxAge s)) eid = None"
proof -
  have "(eid, spec) \<in> set (executions s)"
    using assms(1) by (rule map_of_SomeD)
  then have "eid \<in> fst ` {e \<in> set (executions s).
      now - timestamp (snd e) > (case maxAge of None \<Rightarrow> DEFAULT_TTL | Some a \<Rightarrow> a)}"
    using assms(2) by force
  then show ?thesis
    by (simp add: cleanupOldSpecs_def Let_def fold_delete_filter map_of_filter_keys)
qed

lemma executeSpec_absent:
  "map_of (executions s) eid = None \<Longrightarrow>
   executeSpec axios_get now eid s =
     (\<lparr>res_executionId = eid, res_status = ResError, recordCount = None, data = None,
       error = Some ''Execution spec not found'', executedAt = None\<rparr>, s)"
  by (simp add: executeSpec_def executeSpec_begin_def)

text \<open>
  C4: for an identifier the store does not hold, \<open>executeSpec\<close> returns the error
  result \<open>Execution spec not found\<close> (a value, nothing is thrown) and the service
  is exactly as before: no spec is changed and no request issued. An identifier
  whose spec a sweep has just removed is such an identifier.
\<close>

theorem executeSpec_not_found:
  "(map_of (executions s) eid = None \<longrightarrow>
      executeSpec axios_get t eid s =
        (\<lparr>res_executionId = eid, res_status = ResError, recordCount = None, data = None,
          error = Some ''Execution spec not found'', executedAt = None\<rparr>, s)) \<and>
   (map_of (executions s) eid = Some spec \<and> now - timestamp spec > maxAge \<longrightarrow>
      executeSpec axios_get t eid (cleanupOldSpecs now (Some maxAge) s) =
        (\<lparr>res_executionId = eid, res_status = ResError, recordCount = None, data = None,
          error = Some ''Execution spec not found'', executedAt = None\<rparr>,
         cleanupOldSpecs now (Some maxAge) s))"
  using cleanupOldSpecs_removes [where s = s and eid = eid and spec = spec and now = now
      and maxAge = "Some maxAge"]
  by (auto simp: executeSpec_absent)

theorem executeSpec_not_found_witness:
  "map_of (executions new_service) ''unknown-id'' = None \<and>
   executeSpec (\<lambda>u. Inr JNull) 5 ''unknown-id'' new_service =
     (\<lparr>res_executionId = ''unknown-id'', res_status = ResError, recordCount = None,
       data = None, error = Some ''Execution spec not found'', executedAt = None\<rparr>,
      new_service) \<and>
   (1000::int) - 0 > 100 \<and>
   map_of [(''a'', \<lparr>executionId = ''a'', toolName = ''query_dataset'', parameters = [],
              apiCall = \<lparr>http_method = ''GET'', url = ''h'', params = None, headers = None\<rparr>,
              timestamp = 0, status = Pending, ttl = Some 900000\<rparr>)] ''a'' =
     Some \<lparr>executionId = ''a'', toolName = ''query_dataset'', parameters = [],
              apiCall = \<lparr>http_method = ''GET'', url = ''h'', params = None, headers = None\<rparr>,
              timestamp = 0, status = Pending, ttl = Some 900000\<rparr> \<and>
   fst (executeSpec (\<lambda>u. Inr JNull) 5 ''a''
     (cleanupOldSpecs 1000 (Some 100)
        \<lparr>executions = [(''a'', \<lparr>executionId = ''a'', toolName = ''query_dataset'', parameters = [],
              apiCall = \<lparr>http_method = ''GET'', url = ''h'', params = None, headers = None\<rparr>,
              timestamp = 0, status = Pending, ttl = Some 900000\<rparr>)],
         requests = []\<rparr>)) =
     \<lparr>res_executionId = ''a'', res_status = ResError, recordCount = None,
       data = None, error = Some ''Execution spec not found'', executedAt = None\<rparr>"
  using executeSpec_not_found [of new_service "''unknown-id''" "\<lambda>u. Inr JNull" 5]
    executeSpec_not_found [of
      "\<lparr>executions = [(''a'', \<lparr>executionId = ''a'', toolName = ''query_dataset'', parameters = [],
              apiCall = \<lparr>http_method = ''GET'', url = ''h'', params = None, headers = None\<rparr>,
              timestamp = 0, status = Pending, ttl = Some 900000\<rparr>)],
         requests = []\<rparr>" "''a''" "\<lambda>u. Inr JNull" 5
      "\<lparr>executionId = ''a'', toolName = ''query_dataset'', parameters = [],
              apiCall = \<lparr>http_method = ''GET'', url = ''h'', params = None, headers = None\<rparr>,
              timestamp = 0, status = Pending, ttl = Some 900000\<rparr>" 100 1000]
  by (simp add: new_service_def)

lemma map_entry_absent: "map_of xs k = None \<Longrightarrow> AList.map_entry k f xs = xs"
  by (induction xs) (auto split: if_splits)

lemma map_entry_twice:
  "AList.map_entry k f (AList.map_entry k g xs) = AList.map_entry k (f \<circ> g) xs"
  by (induction xs) auto

lemma executeSpec_present:
  assumes "map_of (executions s) eid = Some spec"
  shows "executeSpec axios_get now eid s =
     executeSpec_end eid now (axios_get (request_url spec))
       ((set_status eid Executing s)\<lparr>requests := requests s @ [request_url spec]\<rparr>)"
  using assms
  by (simp add: executeSpec_def executeSpec_begin_def Let_def requests_set_status)

lemma executeSpec_executions:
  "\<exists>st. executions (snd (executeSpec axios_get now eid s)) =
     AList.map_entry eid (\<lambda>spec. spec\<lparr>status := st\<rparr>) (executions s)"
proof (cases "map_of (executions s) eid")
  case None
  then show ?thesis
    by (simp add: executeSpec_absent map_entry_absent)
next
  case (Some spec)
  show ?thesis
  proof (cases "axios_get (request_url spec)")
    case (Inl msg)
    with Some have "executions (snd (executeSpec axios_get now eid s)) =
        AList.map_entry eid (\<lambda>spec. spec\<lparr>status := Error\<rparr>) (executions s)"
      by (simp add: executeSpec_present executeSpec_end_def set_status_def map_entry_twice comp_def)
    then show ?thesis ..
  next
    case (Inr body)
    with Some have "executions (snd (executeSpec axios_get now eid s)) =
        AList.map_entry eid (\<lambda>spec. spec\<lparr>status := Success\<rparr>) (executions s)"
      by (simp add: executeSpec_present executeSpec_end_def set_status_def map_entry_twice comp_def)
    then show ?thesis ..
  qed
qed

lemma executeSpec_keys:
  "map fst (executions (snd (executeSpec axios_get now eid s))) = map fst (executions s)"
  using executeSpec_executions [of axios_get now eid s]
  by (auto simp: keys_map_entry)

text \<open>
  C5: when the remote call of \<open>executeSpec\<close> fails, the result is an error result
  carrying the failure's description (a value, nothing is thrown) and the stored
  spec has status \<open>error\<close>. Calling \<open>executeSpec\<close> again on that identifier is not
  refused: it sets the status to \<open>executing\<close> and issues the same request once
  more, and when the remote side answers this time, the result is a success and
  the stored status \<open>success\<close>. No call of \<open>executeSpec\<close> adds or removes a key of
  the store.
\<close>

theorem executeSpec_remote_failure:
  "(map_of (executions s) eid = Some spec \<and> axios_get (request_url spec) = Inl msg \<longrightarrow>
      fst (executeSpec axios_get now eid s) =
        \<lparr>res_executionId = eid, res_status = ResError, recordCount = None, data = None,
         error = Some msg, executedAt = None\<rparr> \<and>
      map_of (executions (snd (executeSpec axios_get now eid s))) eid =
        Some (spec\<lparr>status := Error\<rparr>) \<and>
      requests (snd (executeSpec axios_get now eid s)) = requests s @ [request_url spec] \<and>
      (\<exists>s2. executeSpec_begin eid (snd (executeSpec axios_get now eid s)) =
               Inr (request_url spec, s2) \<and>
             map_of (executions s2) eid = Some (spec\<lparr>status := Executing\<rparr>) \<and>
             requests s2 = requests s @ [request_url spec, request_url spec]) \<and>
      (\<forall>again body later. again (request_url spec) = Inr body \<longrightarrow>
         fst (executeSpec again later eid (snd (executeSpec axios_get now eid s))) =
           \<lparr>res_executionId = eid, res_status = ResSuccess,
            recordCount = Some (record_count body), data = None, error = None,
            executedAt = Some later\<rparr> \<and>
         map_of (executions (snd (executeSpec again later eid
                   (snd (executeSpec axios_get now eid s))))) eid =
           Some (spec\<lparr>status := Success\<rparr>))) \<and>
   map fst (executions (snd (executeSpec axios_get now eid s))) = map fst (executions s)"
proof (intro conjI impI)
  show "map fst (executions (snd (executeSpec axios_get now eid s))) = map fst (executions s)"
    by (rule executeSpec_keys)
next
  assume a: "map_of (executions s) eid = Some spec \<and> axios_get (request_url spec) = Inl msg"
  define s1 where "s1 = snd (executeSpec axios_get now eid s)"
  have run1: "executeSpec axios_get now eid s =
      (\<lparr>res_executionId = eid, res_status = ResError, recordCount = None, data = None,
        error = Some msg, executedAt = None\<rparr>,
       set_status eid Error
         ((set_status eid Executing s)\<lparr>requests := requests s @ [request_url spec]\<rparr>))"
    using a by (simp add: executeSpec_present executeSpec_end_def)
  have s1_spec: "map_of (executions s1) eid = Some (spec\<lparr>status := Error\<rparr>)"
    using a by (simp add: s1_def run1 map_of_set_status set_status_def map_of_map_entry)
  have s1_req: "requests s1 = requests s @ [request_url spec]"
    by (simp add: s1_def run1 requests_set_status)
  have url_same: "request_url (spec\<lparr>status := Error\<rparr>) = request_url spec"
    by (simp add: request_url_def)
  show "fst (executeSpec axios_get now eid s) =
        \<lparr>res_executionId = eid, res_status = ResError, recordCount = None, data = None,
         error = Some msg, executedAt = None\<rparr>"
    by (simp add: run1)
  show "map_of (executions (snd (executeSpec axios_get now eid s))) eid =
        Some (spec\<lparr>status := Error\<rparr>)"
    using s1_spec by (simp add: s1_def)
  show "requests (snd (executeSpec axios_get now eid s)) = requests s @ [request_url spec]"
    using s1_req by (simp add: s1_def)
  show "\<exists>s2. executeSpec_begin eid (snd (executeSpec axios_get now eid s)) =
               Inr (request_url spec, s2) \<and>
             map_of (executions s2) eid = Some (spec\<lparr>status := Executing\<rparr>) \<and>
             requests s2 = requests s @ [request_url spec, request_url spec]"
    using s1_spec s1_req
    by (simp add: s1_def [symmetric] executeSpec_begin_def Let_def url_same
        map_of_set_status requests_set_status)
  show "\<forall>again body later. again (request_url spec) = Inr body \<longrightarrow>
         fst (executeSpec again later eid (snd (executeSpec axios_get now eid s))) =
           \<lparr>res_executionId = eid, res_status = ResSuccess,
            recordCount = Some (record_count body), data = None, error = None,
            executedAt = Some later\<rparr> \<and>
         map_of (executions (snd (executeSpec again later eid
                   (snd (executeSpec axios_get now eid s))))) eid =
           Some (spec\<lparr>status := Success\<rparr>)"
    using s1_spec
    by (simp add: s1_def [symmetric] executeSpec_present url_same executeSpec_end_def
        map_of_set_status)
qed


theorem executeSpec_remote_failure_witness:
  "map_of (executions \<lparr>executions = [(''a'', \<lparr>executionId = ''a'', toolName = ''query_dataset'',
              parameters = [], apiCall = \<lparr>http_method = ''GET'', url = ''h'', params = None,
              headers = None\<rparr>, timestamp = 0, status = Pending, ttl = Some 900000\<rparr>)],
         requests = []\<rparr>) ''a'' =
     Some \<lparr>executionId = ''a'', toolName = ''query_dataset'',
              parameters = [], apiCall = \<lparr>http_method = ''GET'', url = ''h'', params = None,
              headers = None\<rparr>, timestamp = 0, status = Pending, ttl = Some 900000\<rparr> \<and>
   executeSpec (\<lambda>u. Inl ''Request failed with status code 500'') 5 ''a''
     \<lparr>executions = [(''a'', \<lparr>executionId = ''a'', toolName = ''query_dataset'',
              parameters = [], apiCall = \<lparr>http_method = ''GET'', url = ''h'', params = None,
              headers = None\<rparr>, timestamp = 0, status = Pending, ttl = Some 900000\<rparr>)],
         requests = []\<rparr> =
     (\<lparr>res_executionId = ''a'', res_status = ResError, recordCount = None, data = None,
       error = Some ''Request failed with status code 500'', executedAt = None\<rparr>,
      \<lparr>executions = [(''a'', \<lparr>executionId = ''a'', toolName = ''query_dataset'',
              parameters = [], apiCall = \<lparr>http_method = ''GET'', url = ''h'', params = None,
              headers = None\<rparr>, timestamp = 0, status = Error, ttl = Some 900000\<rparr>)],
         requests = [''h?'']\<rparr>) \<and>
   executeSpec (\<lambda>u. Inr (JObj [])) 6 ''a''
     \<lparr>executions = [(''a'', \<lparr>executionId = ''a'', toolName = ''query_dataset'',
              parameters = [], apiCall = \<lparr>http_method = ''GET'', url = ''h'', params = None,
              headers = None\<rparr>, timestamp = 0, status = Error, ttl = Some 900000\<rparr>)],
         requests = [''h?'']\<rparr> =
     (\<lparr>res_executionId = ''a'', res_status = ResSuccess, recordCount = Some 0, data = None,
       error = None, executedAt = Some 6\<rparr>,
      \<lparr>executions = [(''a'', \<lparr>executionId = ''a'', toolName = ''query_dataset'',
              parameters = [], apiCall = \<lparr>http_method = ''GET'', url = ''h'', params = None,
              headers = None\<rparr>, timestamp = 0, status = Success, ttl = Some 900000\<rparr>)],
         requests = [''h?'', ''h?'']\<rparr>)"
  using executeSpec_remote_failure [of
      "\<lparr>executions = [(''a'', \<lparr>executionId = ''a'', toolName = ''query_dataset'',
              parameters = [], apiCall = \<lparr>http_method = ''GET'', url = ''h'', params = None,
              headers = None\<rparr>, timestamp = 0, status = Pending, ttl = Some 900000\<rparr>)],
         requests = []\<rparr>" "''a''"
      "\<lparr>executionId = ''a'', toolName = ''query_dataset'',
              parameters = [], apiCall = \<lparr>http_method = ''GET'', url = ''h'', params = None,
              headers = None\<rparr>, timestamp = 0, status = Pending, ttl = Some 900000\<rparr>"
      "\<lambda>u. Inl ''Request failed with status code 500''"
      "''Request failed with status code 500''" 5]
  by (simp add: service_eval)

lemma map_entry_no_key: "k \<notin> fst ` set xs \<Longrightarrow> AList.map_entry k f xs = xs"
  by (induction xs) auto

lemma filter_map_entry:
  assumes "\<And>v. P (f v) = P v" and "distinct (map fst xs)"
  shows "filter (\<lambda>(k, v). P v) (AList.map_entry k f xs) =
         AList.map_entry k f (filter (\<lambda>(k, v). P v) xs)"
  using assms(2)
proof (induction xs)
  case Nil
  show ?case by simp
next
  case (Cons x xs)
  obtain k' v where x: "x = (k', v)" by (cases x)
  show ?case
  proof (cases "k' = k")
    case True
    with Cons.prems x have "k \<notin> fst ` set (filter (\<lambda>(k, v). P v) xs)"
      by auto
    then have "AList.map_entry k f (filter (\<lambda>(k, v). P v) xs) = filter (\<lambda>(k, v). P v) xs"
      by (rule map_entry_no_key)
    with True show ?thesis
      by (simp add: x assms(1))
  next
    case False
    with Cons.prems have "filter (\<lambda>(k, v). P v) (AList.map_entry k f xs) =
         AList.map_entry k f (filter (\<lambda>(k, v). P v) xs)"
      using Cons.IH by simp
    with False show ?thesis
      by (simp add: x)
  qed
qed

lemma cleanupOldSpecs_requests: "requests (cleanupOldSpecs now maxAge s) = requests s"
  by (simp add: cleanupOldSpecs_def Let_def)

lemma new_service_keys_distinct: "distinct (map fst (executions new_service))"
  by (simp add: new_service_def)

lemma executeSpec_keys_distinct:
  "distinct (map fst (executions s)) \<Longrightarrow>
   distinct (map fst (executions (snd (executeSpec axios_get now eid s))))"
  by (simp only: executeSpec_keys)

lemma cleanupOldSpecs_keys_distinct:
  "distinct (map fst (executions s)) \<Longrightarrow>
   distinct (map fst (executions (cleanupOldSpecs now maxAge s)))"
  by (simp add: cleanupOldSpecs_filter distinct_map_filter)

lemma generateExecutionSpec_keys_distinct:
  "distinct (map fst (executions s)) \<Longrightarrow>
   generateExecutionSpec uuid now request s = Inr (spec, s') \<Longrightarrow>
   distinct (map fst (executions s'))"
  using generateExecutionSpec_Inr(6) [of uuid now request s spec s']
  by (simp only: distinct_update)

text \<open>
  C6: \<open>cleanupOldSpecs\<close> keeps exactly the entries whose age, the clock reading
  minus the creation timestamp, does not exceed \<open>maxAge\<close> (900000 ms when the
  argument is omitted), unchanged and in their order, and removes the others; an
  entry whose age equals \<open>maxAge\<close> stays. The age is read from \<open>timestamp\<close> alone,
  which \<open>executeSpec\<close> never writes: the sweep removes the same identifiers after
  a spec has been looked up and run as it would have before.
\<close>

theorem cleanupOldSpecs_age_threshold:
  "distinct (map fst (executions s)) \<longrightarrow>
     executions (cleanupOldSpecs now (Some maxAge) s) =
       filter (\<lambda>(k, spec). \<not> now - timestamp spec > maxAge) (executions s) \<and>
     executions (cleanupOldSpecs now None s) =
       filter (\<lambda>(k, spec). \<not> now - timestamp spec > 900000) (executions s) \<and>
     requests (cleanupOldSpecs now (Some maxAge) s) = requests s \<and>
     map fst (executions (cleanupOldSpecs now (Some maxAge)
                (snd (executeSpec axios_get t eid s)))) =
       map fst (executions (cleanupOldSpecs now (Some maxAge) s))"
proof (intro impI conjI)
  assume d: "distinct (map fst (executions s))"
  show "executions (cleanupOldSpecs now (Some maxAge) s) =
       filter (\<lambda>(k, spec). \<not> now - timestamp spec > maxAge) (executions s)"
    using cleanupOldSpecs_filter [OF d, of now "Some maxAge"] by simp
  show "executions (cleanupOldSpecs now None s) =
       filter (\<lambda>(k, spec). \<not> now - timestamp spec > 900000) (executions s)"
    using cleanupOldSpecs_filter [OF d, of now None] by (simp add: DEFAULT_TTL_def)
  show "requests (cleanupOldSpecs now (Some maxAge) s) = requests s"
    by (rule cleanupOldSpecs_requests)
  obtain st where st: "executions (snd (executeSpec axios_get t eid s)) =
     AList.map_entry eid (\<lambda>spec. spec\<lparr>status := st\<rparr>) (executions s)"
    using executeSpec_executions by blast
  have d': "distinct (map fst (executions (snd (executeSpec axios_get t eid s))))"
    using d by (simp only: executeSpec_keys)
  have "executions (cleanupOldSpecs now (Some maxAge) (snd (executeSpec axios_get t eid s))) =
        filter (\<lambda>(k, spec). \<not> now - timestamp spec > maxAge)
          (executions (snd (executeSpec axios_get t eid s)))"
    by (simp add: cleanupOldSpecs_filter [OF d'])
  also have "\<dots> = filter (\<lambda>(k, spec). \<not> now - timestamp spec > maxAge)
          (AList.map_entry eid (\<lambda>spec. spec\<lparr>status := st\<rparr>) (executions s))"
    by (simp only: st)
  also have "\<dots> = AList.map_entry eid (\<lambda>spec. spec\<lparr>status := st\<rparr>)
        (filter (\<lambda>(k, spec). \<not> now - timestamp spec > maxAge) (executions s))"
    by (rule filter_map_entry) (simp_all add: d)
  also have "\<dots> = AList.map_entry eid (\<lambda>spec. spec\<lparr>status := st\<rparr>)
        (executions (cleanupOldSpecs now (Some maxAge) s))"
    by (simp add: cleanupOldSpecs_filter [OF d])
  finally have "executions (cleanupOldSpecs now (Some maxAge)
        (snd (executeSpec axios_get t eid s))) =
      AList.map_entry eid (\<lambda>spec. spec\<lparr>status := st\<rparr>)
        (executions (cleanupOldSpecs now (Some maxAge) s))" .
  then show "map fst (executions (cleanupOldSpecs now (Some maxAge)
                (snd (executeSpec axios_get t eid s)))) =
       map fst (executions (cleanupOldSpecs now (Some maxAge) s))"
    by (simp only: keys_map_entry)
qed



theorem cleanupOldSpecs_age_threshold_witness:
  "distinct (map fst (executions (snd (generate_run
      [(''a'', 1000, \<lparr>req_toolName = ''query_dataset'', req_parameters = []\<rparr>),
       (''b'', 800, \<lparr>req_toolName = ''query_dataset'', req_parameters = []\<rparr>),
       (''c'', 950, \<lparr>req_toolName = ''query_dataset'', req_parameters = []\<rparr>),
       (''d'', 900, \<lparr>req_toolName = ''query_dataset'', req_parameters = []\<rparr>)] new_service)))) \<and>
   map (\<lambda>(k, spec). (k, timestamp spec)) (executions (cleanupOldSpecs 1000 (Some 100)
     (snd (generate_run
      [(''a'', 1000, \<lparr>req_toolName = ''query_dataset'', req_parameters = []\<rparr>),
       (''b'', 800, \<lparr>req_toolName = ''query_dataset'', req_parameters = []\<rparr>),
       (''c'', 950, \<lparr>req_toolName = ''query_dataset'', req_parameters = []\<rparr>),
       (''d'', 900, \<lparr>req_toolName = ''query_dataset'', req_parameters = []\<rparr>)] new_service)))) =
     [(''a'', 1000), (''c'', 950), (''d'', 900)]"
  using cleanupOldSpecs_age_threshold [of
    "snd (generate_run
      [(''a'', 1000, \<lparr>req_toolName = ''query_dataset'', req_parameters = []\<rparr>),
       (''b'', 800, \<lparr>req_toolName = ''query_dataset'', req_parameters = []\<rparr>),
       (''c'', 950, \<lparr>req_toolName = ''query_dataset'', req_parameters = []\<rparr>),
       (''d'', 900, \<lparr>req_toolName = ''query_dataset'', req_parameters = []\<rparr>)] new_service)"
    1000 100 "\<lambda>u. Inr JNull" 5 "''a''"]
  by (simp add: generate_run.simps generateExecutionSpec_def buildApiCall_def Let_def
      new_service_def)

lemma old_keys_ttl_list:
  "map fst (filter (\<lambda>e. P (timestamp (snd e))) (map (\<lambda>(k, spec). (k, spec\<lparr>ttl := f k spec\<rparr>)) xs)) =
   map fst (filter (\<lambda>e. P (timestamp (snd e))) xs)"
  by (induction xs) auto

lemma old_keys_ttl:
  "fst ` {e \<in> set (map (\<lambda>(k, spec). (k, spec\<lparr>ttl := f k spec\<rparr>)) xs). P (timestamp (snd e))} =
   fst ` {e \<in> set xs. P (timestamp (snd e))}"
proof -
  have "fst ` {e \<in> set (map (\<lambda>(k, spec). (k, spec\<lparr>ttl := f k spec\<rparr>)) xs). P (timestamp (snd e))} =
        set (map fst (filter (\<lambda>e. P (timestamp (snd e)))
               (map (\<lambda>(k, spec). (k, spec\<lparr>ttl := f k spec\<rparr>)) xs)))"
    by (simp only: set_map set_filter)
  also have "\<dots> = set (map fst (filter (\<lambda>e. P (timestamp (snd e))) xs))"
    by (simp only: old_keys_ttl_list)
  also have "\<dots> = fst ` {e \<in> set xs. P (timestamp (snd e))}"
    by (simp only: set_map set_filter)
  finally show ?thesis .
qed

lemma filter_keys_map:
  "filter (\<lambda>(k, v). Q k) (map (\<lambda>(k, v). (k, g k v)) xs) =
   map (\<lambda>(k, v). (k, g k v)) (filter (\<lambda>(k, v). Q k) xs)"
  by (induction xs) auto



text \<open>
  C10: every spec \<open>generateExecutionSpec\<close> returns has \<open>ttl\<close> 900000 ms (15
  minutes). The sweep does not read \<open>ttl\<close>: whatever \<open>ttl\<close> values the stored specs
  are given, the sweep removes and keeps the same entries. The field is read for
  the \<open>Expires In\<close> cell of the table, whose countdown is the \<open>ttl\<close> (900000 when it
  is absent or 0) minus the age, not below 0.
\<close>

theorem ttl_not_consulted:
  "(\<forall>spec s'. generateExecutionSpec uuid t request s = Inr (spec, s') \<longrightarrow>
      ttl spec = Some 900000) \<and>
   executions (cleanupOldSpecs now maxAge
       (s\<lparr>executions := map (\<lambda>(k, spec). (k, spec\<lparr>ttl := f k spec\<rparr>)) (executions s)\<rparr>)) =
     map (\<lambda>(k, spec). (k, spec\<lparr>ttl := f k spec\<rparr>)) (executions (cleanupOldSpecs now maxAge s)) \<and>
   expires_in now spec0 =
     max 0 ((case ttl spec0 of None \<Rightarrow> 900000 | Some a \<Rightarrow> if a = 0 then 900000 else a) -
            (now - timestamp spec0))"
proof (intro conjI allI impI)
  fix spec s'
  assume "generateExecutionSpec uuid t request s = Inr (spec, s')"
  then show "ttl spec = Some 900000"
    using generateExecutionSpec_Inr(5) by (simp add: DEFAULT_TTL_def)
next
  let ?m = "case maxAge of None \<Rightarrow> DEFAULT_TTL | Some a \<Rightarrow> a"
  have "executions (cleanupOldSpecs now maxAge
       (s\<lparr>executions := map (\<lambda>(k, spec). (k, spec\<lparr>ttl := f k spec\<rparr>)) (executions s)\<rparr>)) =
     filter (\<lambda>(k, v). k \<notin> fst ` {e \<in> set (map (\<lambda>(k, spec). (k, spec\<lparr>ttl := f k spec\<rparr>)) (executions s)).
                now - timestamp (snd e) > ?m})
       (map (\<lambda>(k, spec). (k, spec\<lparr>ttl := f k spec\<rparr>)) (executions s))"
    by (simp add: cleanupOldSpecs_def Let_def fold_delete_filter)
  also have "\<dots> = filter (\<lambda>(k, v). k \<notin> fst ` {e \<in> set (executions s). now - timestamp (snd e) > ?m})
       (map (\<lambda>(k, spec). (k, spec\<lparr>ttl := f k spec\<rparr>)) (executions s))"
    by (simp only: old_keys_ttl [of f "executions s" "\<lambda>ts. now - ts > ?m"])
  also have "\<dots> = map (\<lambda>(k, spec). (k, spec\<lparr>ttl := f k spec\<rparr>))
       (filter (\<lambda>(k, v). k \<notin> fst ` {e \<in> set (executions s). now - timestamp (snd e) > ?m})
          (executions s))"
    by (rule filter_keys_map)
  also have "\<dots> = map (\<lambda>(k, spec). (k, spec\<lparr>ttl := f k spec\<rparr>))
       (executions (cleanupOldSpecs now maxAge s))"
    by (simp add: cleanupOldSpecs_def Let_def fold_delete_filter)
  finally show "executions (cleanupOldSpecs now maxAge
       (s\<lparr>executions := map (\<lambda>(k, spec). (k, spec\<lparr>ttl := f k spec\<rparr>)) (executions s)\<rparr>)) =
     map (\<lambda>(k, spec). (k, spec\<lparr>ttl := f k spec\<rparr>)) (executions (cleanupOldSpecs now maxAge s))" .
next
  show "expires_in now spec0 =
     max 0 ((case ttl spec0 of None \<Rightarrow> 900000 | Some a \<Rightarrow> if a = 0 then 900000 else a) -
            (now - timestamp spec0))"
    by (simp add: expires_in_def Let_def DEFAULT_TTL_def split: option.split)
qed

theorem ttl_not_consulted_witness:
  "(\<exists>spec s'. generateExecutionSpec ''c'' 990
       \<lparr>req_toolName = ''query_dataset'', req_parameters = []\<rparr>
       (snd (generate_run
          [(''a'', 950, \<lparr>req_toolName = ''query_dataset'', req_parameters = []\<rparr>),
           (''b'', 800, \<lparr>req_toolName = ''query_dataset'', req_parameters = []\<rparr>)]
          new_service)) = Inr (spec, s') \<and> ttl spec = Some 900000) \<and>
   map (\<lambda>(k, spec). (k, timestamp spec, ttl spec))
     (executions (cleanupOldSpecs 1000 (Some 100)
        ((snd (generate_run
          [(''a'', 950, \<lparr>req_toolName = ''query_dataset'', req_parameters = []\<rparr>),
           (''b'', 800, \<lparr>req_toolName = ''query_dataset'', req_parameters = []\<rparr>)]
          new_service))
         \<lparr>executions := map (\<lambda>(k, spec). (k, spec\<lparr>ttl := (if k = ''a'' then Some 1 else None)\<rparr>))
            (executions (snd (generate_run
          [(''a'', 950, \<lparr>req_toolName = ''query_dataset'', req_parameters = []\<rparr>),
           (''b'', 800, \<lparr>req_toolName = ''query_dataset'', req_parameters = []\<rparr>)]
          new_service)))\<rparr>))) =
     [(''a'', 950, Some 1)] \<and>
   expires_in 1000 \<lparr>executionId = ''a'', toolName = ''query_dataset'', parameters = [],
       apiCall = \<lparr>http_method = ''GET'', url = ''h'', params = None, headers = None\<rparr>,
       timestamp = 950, status = Pending, ttl = Some 1\<rparr> = 0 \<and>
   expires_in_cell 1000 \<lparr>executionId = ''a'', toolName = ''query_dataset'', parameters = [],
       apiCall = \<lparr>http_method = ''GET'', url = ''h'', params = None, headers = None\<rparr>,
       timestamp = 950, status = Pending, ttl = Some 1\<rparr> = ''EXPIRED''"
  using ttl_not_consulted [where uuid = "''c''" and t = 990
      and request = "\<lparr>req_toolName = ''query_dataset'', req_parameters = []\<rparr>"
      and s = "snd (generate_run
          [(''a'', 950, \<lparr>req_toolName = ''query_dataset'', req_parameters = []\<rparr>),
           (''b'', 800, \<lparr>req_toolName = ''query_dataset'', req_parameters = []\<rparr>)]
          new_service)"
      and now = 1000 and maxAge = "Some 100"
      and f = "\<lambda>k spec. if k = ''a'' then Some 1 else None"
      and ?spec0.0 = "\<lparr>executionId = ''a'', toolName = ''query_dataset'', parameters = [],
       apiCall = \<lparr>http_method = ''GET'', url = ''h'', params = None, headers = None\<rparr>,
       timestamp = 950, status = Pending, ttl = Some 1\<rparr>"]
  by (simp add: service_eval expires_in_cell_def)

section \<open>Properties of the client: framing\<close>

lemmas client_eval =
  run_def step.simps connect_spawn_def sendRequest_def js_incr_def Let_def new_client_def
  close_def cleanup_def fire_timeout_def clearTimeout_def settle_def handleData_def
  handle_line_def handleResponse_def run_handler_def trim_def js_space_def exact.rep_eq
  stdout_data_def byte_in_def replacement_def

lemma split_nl_nonempty: "split_nl s \<noteq> []"
  by (induction s) (auto split: list.split)

lemma split_nl_newline: "split_nl (CHR 0x0A # s) = [] # split_nl s"
  by simp

lemma split_nl_other:
  "x \<noteq> CHR 0x0A \<Longrightarrow> split_nl (x # s) = (x # hd (split_nl s)) # tl (split_nl s)"
  using split_nl_nonempty [of s] by (cases "split_nl s") simp_all

lemma split_nl_append:
  "split_nl (a @ b) = butlast (split_nl a) @ split_nl (last (split_nl a) @ b)"
proof (induction a)
  case Nil
  show ?case by simp
next
  case (Cons x a)
  show ?case
  proof (cases "x = CHR 0x0A")
    case True
    then show ?thesis
      using Cons.IH split_nl_nonempty [of a] by simp
  next
    case False
    obtain l ls where S: "split_nl a = l # ls"
      using split_nl_nonempty [of a] by (cases "split_nl a") auto
    show ?thesis
    proof (cases ls)
      case Nil
      with S Cons.IH have "split_nl (a @ b) = split_nl (l @ b)" by simp
      with False S Nil show ?thesis
        by (simp add: split_nl_other del: split_nl.simps)
    next
      case (Cons l' ls')
      with S Cons.IH have "split_nl (a @ b) = (l # butlast ls) @ split_nl (last ls @ b)"
        by simp
      with False S Cons show ?thesis
        by (simp add: split_nl_other del: split_nl.simps)
    qed
  qed
qed

lemma split_nl_no_newline: "l \<in> set (split_nl s) \<Longrightarrow> CHR 0x0A \<notin> set l"
proof (induction s arbitrary: l)
  case Nil
  then show ?case by simp
next
  case (Cons x s)
  show ?case
  proof (cases "x = CHR 0x0A")
    case True
    with Cons show ?thesis by auto
  next
    case False
    obtain k ks where S: "split_nl s = k # ks"
      using split_nl_nonempty [of s] by (cases "split_nl s") auto
    with False Cons.prems have "l = x # k \<or> l \<in> set ks" by simp
    with False S Cons.IH show ?thesis by auto
  qed
qed

lemma join_split_nl: "join [CHR 0x0A] (split_nl s) = s"
proof (induction s)
  case Nil
  show ?case by simp
next
  case (Cons x s)
  obtain k ks where S: "split_nl s = k # ks"
    using split_nl_nonempty [of s] by (cases "split_nl s") auto
  show ?case
  proof (cases "x = CHR 0x0A")
    case True
    with S Cons.IH show ?thesis by simp
  next
    case False
    with S Cons.IH show ?thesis by (cases ks) simp_all
  qed
qed


section \<open>Properties of the client: state\<close>

lemma settle_fields:
  "server (settle p v c) = server c"
  "messageId (settle p v c) = messageId c"
  "responseHandlers (settle p v c) = responseHandlers c"
  "buffer (settle p v c) = buffer c"
  "initialized (settle p v c) = initialized c"
  "sent (settle p v c) = sent c"
  by (simp_all add: settle_def)

lemma clearTimeout_fields:
  "server (clearTimeout p c) = server c"
  "messageId (clearTimeout p c) = messageId c"
  "responseHandlers (clearTimeout p c) = responseHandlers c"
  "buffer (clearTimeout p c) = buffer c"
  "initialized (clearTimeout p c) = initialized c"
  "sent (clearTimeout p c) = sent c"
  by (simp_all add: clearTimeout_def)

lemma settle_buffer: "settle p v (c\<lparr>buffer := b\<rparr>) = (settle p v c)\<lparr>buffer := b\<rparr>"
  by (simp add: settle_def)

lemma clearTimeout_buffer: "clearTimeout p (c\<lparr>buffer := b\<rparr>) = (clearTimeout p c)\<lparr>buffer := b\<rparr>"
  by (simp add: clearTimeout_def)

lemma handleResponse_buffer:
  "handleResponse r (c\<lparr>buffer := b\<rparr>) =
     (case handleResponse r c of Inl e \<Rightarrow> Inl e | Inr c' \<Rightarrow> Inr (c'\<lparr>buffer := b\<rparr>))"
  by (simp add: handleResponse_def run_handler_def settle_def clearTimeout_def
      split: option.split json.split)

lemma handle_line_buffer:
  "handle_line parse l (c\<lparr>buffer := b\<rparr>) = (handle_line parse l c)\<lparr>buffer := b\<rparr>"
  by (simp add: handle_line_def handleResponse_buffer split: option.split sum.split)

lemma fold_handle_line_buffer:
  "fold (handle_line parse) ls (c\<lparr>buffer := b\<rparr>) = (fold (handle_line parse) ls c)\<lparr>buffer := b\<rparr>"
  by (induction ls arbitrary: c) (simp_all add: handle_line_buffer)

lemma handleResponse_fields:
  assumes "handleResponse r c = Inr c'"
  shows "server c' = server c" and "messageId c' = messageId c" and "buffer c' = buffer c"
    and "initialized c' = initialized c" and "sent c' = sent c"
  using assms
  by (auto simp: handleResponse_def run_handler_def settle_fields clearTimeout_fields
      split: option.splits json.splits if_splits)

lemma handle_line_fields:
  "server (handle_line parse l c) = server c"
  "messageId (handle_line parse l c) = messageId c"
  "buffer (handle_line parse l c) = buffer c"
  "initialized (handle_line parse l c) = initialized c"
  "sent (handle_line parse l c) = sent c"
  by (auto simp: handle_line_def handleResponse_fields split: option.split sum.split)

lemma fold_handle_line_fields:
  "server (fold (handle_line parse) ls c) = server c"
  "messageId (fold (handle_line parse) ls c) = messageId c"
  "buffer (fold (handle_line parse) ls c) = buffer c"
  "initialized (fold (handle_line parse) ls c) = initialized c"
  "sent (fold (handle_line parse) ls c) = sent c"
  by (induction ls arbitrary: c) (simp_all add: handle_line_fields)

lemma handleData_fields:
  "server (handleData parse chunk c) = server c"
  "messageId (handleData parse chunk c) = messageId c"
  "buffer (handleData parse chunk c) = last (split_nl (buffer c @ chunk))"
  "initialized (handleData parse chunk c) = initialized c"
  "sent (handleData parse chunk c) = sent c"
  by (simp_all add: handleData_def Let_def fold_handle_line_fields)

lemma handleData_append:
  "handleData parse c2 (handleData parse c1 c) = handleData parse (c1 @ c2) c"
proof -
  let ?L1 = "split_nl (buffer c @ c1)"
  let ?L2 = "split_nl (last ?L1 @ c2)"
  let ?h = "handle_line parse"
  have L: "split_nl (buffer c @ c1 @ c2) = butlast ?L1 @ ?L2"
    using split_nl_append [of "buffer c @ c1" c2] by simp
  have L2: "?L2 \<noteq> []"
    by (rule split_nl_nonempty)
  have "handleData parse c2 (handleData parse c1 c) =
        fold ?h (butlast ?L2) ((handleData parse c1 c)\<lparr>buffer := last ?L2\<rparr>)"
    by (simp add: handleData_def [of parse c2] Let_def handleData_fields)
  also have "(handleData parse c1 c)\<lparr>buffer := last ?L2\<rparr> =
        fold ?h (butlast ?L1) (c\<lparr>buffer := last ?L2\<rparr>)"
    by (simp add: handleData_def Let_def fold_handle_line_buffer)
  also have "fold ?h (butlast ?L2) (fold ?h (butlast ?L1) (c\<lparr>buffer := last ?L2\<rparr>)) =
        fold ?h (butlast ?L1 @ butlast ?L2) (c\<lparr>buffer := last ?L2\<rparr>)"
    by simp
  also have "\<dots> = handleData parse (c1 @ c2) c"
    using L2 by (simp add: handleData_def Let_def L butlast_append)
  finally show ?thesis .
qed

lemma handle_line_malformed: "parse l = None \<Longrightarrow> handle_line parse l c = c"
  by (simp add: handle_line_def)


text \<open>
  On text, the framing of \<open>handleData\<close> is right. It appends the chunk to the buffer,
  splits the text at the newlines (the segments contain no newline and joined by
  newlines give the text back), runs the loop body on every segment but the last,
  in order, and keeps the last segment, which may be empty, as the new buffer.
  Feeding two chunks of text one after the other leaves the client exactly as
  feeding their concatenation at once. A segment that \<^verbatim>\<open>JSON.parse\<close> rejects changes
  nothing: no call is settled and nothing is thrown.
\<close>

lemma handleData_framing:
  "handleData parse chunk c =
     fold (handle_line parse) (butlast (split_nl (buffer c @ chunk)))
       (c\<lparr>buffer := last (split_nl (buffer c @ chunk))\<rparr>) \<and>
   buffer (handleData parse chunk c) = last (split_nl (buffer c @ chunk)) \<and>
   join [CHR 0x0A] (split_nl s) = s \<and>
   (\<forall>l \<in> set (split_nl s). CHR 0x0A \<notin> set l) \<and>
   handleData parse c2 (handleData parse c1 c) = handleData parse (c1 @ c2) c \<and>
   (parse l = None \<longrightarrow> handle_line parse l c = c)"
  by (simp add: handleData_def [of parse chunk] Let_def fold_handle_line_fields join_split_nl
      split_nl_no_newline handleData_append handle_line_malformed)

text \<open>
  On bytes it is not: the listener decodes each chunk before \<open>handleData\<close> sees it,
  so two chunks of bytes are handled as the concatenation of their two decodings,
  which is the decoding of their concatenation only when no character is cut.
\<close>

lemma stdout_data_twice:
  "stdout_data parse b2 (stdout_data parse b1 c) =
     handleData parse (buffer_toString b1 @ buffer_toString b2) c"
  by (simp add: stdout_data_def handleData_append)

text \<open>
  C9: the code at the failing input. The server writes the line
  \<^verbatim>\<open>{"id":1,"result":"<e acute>"}\<close> and the pipe delivers it in two chunks, cut
  between the two bytes C3 A9 of the accented letter. Delivered in one chunk, the
  line resolves call 1 with the result as sent. Delivered in two, each chunk is
  decoded on its own, both halves of the letter become U+FFFD, and call 1 is
  resolved with a result the server never sent: the message is not put together
  again.
\<close>

theorem stdout_chunks_cut_in_character:
  "(let head = ''{'' @ [CHR 0x22] @ ''id'' @ [CHR 0x22] @ '':1,'' @ [CHR 0x22] @ ''result'' @
               [CHR 0x22] @ '':'' @ [CHR 0x22];
        chunk1 = head @ [CHR 0xC3];
        chunk2 = [CHR 0xA9, CHR 0x22] @ ''}'' @ [CHR 0x0A];
        sent_line = head @ [CHR 0xC3, CHR 0xA9, CHR 0x22] @ ''}'';
        other_line = head @ replacement @ replacement @ [CHR 0x22] @ ''}'';
        parse = (\<lambda>l. if l = sent_line
                       then Some (JObj [(''id'', JNum (exact 1)),
                                        (''result'', JStr [CHR 0xC3, CHR 0xA9])])
                     else if l = other_line
                       then Some (JObj [(''id'', JNum (exact 1)),
                                        (''result'', JStr (replacement @ replacement))])
                     else None);
        c = run parse [Spawn, Send ''tools/call'' None] new_client
    in buffer_toString (chunk1 @ chunk2) = sent_line @ [CHR 0x0A] \<and>
       buffer_toString chunk1 @ buffer_toString chunk2 = other_line @ [CHR 0x0A] \<and>
       map outcome (calls (stdout_data parse (chunk1 @ chunk2) c)) =
         [Resolved (JObj [(''id'', JNum (exact 1)), (''result'', JStr [CHR 0xC3, CHR 0xA9])])] \<and>
       map outcome (calls (stdout_data parse chunk2 (stdout_data parse chunk1 c))) =
         [Resolved (JObj [(''id'', JNum (exact 1)),
                          (''result'', JStr (replacement @ replacement))])])"
  by (simp add: client_eval)

lemma fire_timeout_fields:
  "server (fire_timeout p c) = server c"
  "messageId (fire_timeout p c) = messageId c"
  "buffer (fire_timeout p c) = buffer c"
  "initialized (fire_timeout p c) = initialized c"
  "sent (fire_timeout p c) = sent c"
  by (simp_all add: fire_timeout_def Let_def settle_fields clearTimeout_fields)

lemma sendRequest_connected:
  "server c \<Longrightarrow>
   sendRequest m ps c =
     Inr (length (calls c),
          c\<lparr>messageId := js_incr (messageId c),
            calls := calls c @ [\<lparr>call_id = js_incr (messageId c), outcome = Unsettled, timer = True\<rparr>],
            responseHandlers := AList.update (js_incr (messageId c)) (length (calls c)) (responseHandlers c),
            sent := sent c @ [\<lparr>rq_id = js_incr (messageId c), rq_method = m, rq_params = ps\<rparr>]\<rparr>)"
  by (simp add: sendRequest_def Let_def)

lemma step_counter:
  assumes "e \<noteq> Close" and "e \<noteq> Exit"
  shows "(messageId (step parse e c) = messageId c \<and> sent (step parse e c) = sent c) \<or>
         (messageId (step parse e c) = js_incr (messageId c) \<and>
          (\<exists>r. sent (step parse e c) = sent c @ [r] \<and> rq_id r = js_incr (messageId c)))"
proof (cases e)
  case Spawn
  then show ?thesis by (simp add: connect_spawn_def)
next
  case (Send m ps)
  then show ?thesis by (simp add: sendRequest_def Let_def)
next
  case (Data chunk)
  then show ?thesis by (simp add: handleData_fields)
next
  case (Timeout p)
  then show ?thesis by (simp add: fire_timeout_fields)
next
  case Close
  with assms show ?thesis by simp
next
  case Exit
  with assms show ?thesis by simp
qed

lemma run_one_connection:
  assumes "Close \<notin> set es" and "Exit \<notin> set es"
      and "messageId c + int (length es) \<le> 2 ^ 53"
  shows "\<exists>new. sent (run parse es c) = sent c @ new \<and>
               sorted_wrt (<) (map rq_id new) \<and>
               (\<forall>r \<in> set new. messageId c < rq_id r \<and> rq_id r \<le> messageId (run parse es c)) \<and>
               messageId c \<le> messageId (run parse es c) \<and>
               messageId (run parse es c) \<le> messageId c + int (length es)"
  using assms
proof (induction es arbitrary: c)
  case Nil
  then show ?case by (simp add: run_def)
next
  case (Cons e es)
  let ?c1 = "step parse e c"
  have e: "e \<noteq> Close" "e \<noteq> Exit"
    using Cons.prems by auto
  have small: "messageId c < 2 ^ 53"
    using Cons.prems(3) by simp
  then have incr: "js_incr (messageId c) = messageId c + 1"
    by (simp add: js_incr_def)
  have run: "run parse (e # es) c = run parse es ?c1"
    by (simp add: run_def)
  from step_counter [OF e, of parse c]
  consider (same) "messageId ?c1 = messageId c" "sent ?c1 = sent c"
    | (sent) r where "messageId ?c1 = messageId c + 1" "sent ?c1 = sent c @ [r]"
        "rq_id r = messageId c + 1"
    using incr by auto
  then show ?case
  proof cases
    case same
    have "messageId ?c1 + int (length es) \<le> 2 ^ 53"
      using Cons.prems(3) same by simp
    with Cons.IH [of ?c1] Cons.prems obtain new where
      "sent (run parse es ?c1) = sent ?c1 @ new" "sorted_wrt (<) (map rq_id new)"
      "\<forall>r \<in> set new. messageId ?c1 < rq_id r \<and> rq_id r \<le> messageId (run parse es ?c1)"
      "messageId ?c1 \<le> messageId (run parse es ?c1)"
      "messageId (run parse es ?c1) \<le> messageId ?c1 + int (length es)"
      by auto
    with same run show ?thesis by auto
  next
    case sent
    have "messageId ?c1 + int (length es) \<le> 2 ^ 53"
      using Cons.prems(3) sent by simp
    with Cons.IH [of ?c1] Cons.prems obtain new where new:
      "sent (run parse es ?c1) = sent ?c1 @ new" "sorted_wrt (<) (map rq_id new)"
      "\<forall>r \<in> set new. messageId ?c1 < rq_id r \<and> rq_id r \<le> messageId (run parse es ?c1)"
      "messageId ?c1 \<le> messageId (run parse es ?c1)"
      "messageId (run parse es ?c1) \<le> messageId ?c1 + int (length es)"
      by auto
    have "sent (run parse (e # es) c) = sent c @ (r # new)"
      using new(1) sent(2) run by simp
    moreover have "sorted_wrt (<) (map rq_id (r # new))"
      using new(2,3) sent(1,3) by auto
    moreover have "\<forall>x \<in> set (r # new). messageId c < rq_id x \<and>
        rq_id x \<le> messageId (run parse (e # es) c)"
      using new(3,4) sent(1,3) run by auto
    moreover have "messageId c \<le> messageId (run parse (e # es) c)"
      using new(4) sent(1) run by simp
    moreover have "messageId (run parse (e # es) c) \<le> messageId c + int (length (e # es))"
      using new(5) sent(1) run by simp
    ultimately show ?thesis by blast
  qed
qed


text \<open>
  C7, as stated, fails: \<open>cleanup\<close> sets the counter back to 0, so the first request
  after a close and a new connection carries the identifier 1 again.
\<close>

theorem messageId_reused_after_close_counterexample:
  "map rq_id (sent (run (\<lambda>l. None)
     [Spawn, Send ''initialize'' None, Close, Spawn, Send ''initialize'' None] new_client)) =
   [1, 1]"
  by (simp add: client_eval)

text \<open>
  C7, amended: on a connected client whose counter is below \<open>2^53\<close>, \<open>sendRequest\<close>
  allocates the counter plus one, stores it as the new counter and writes it in
  the request. Over any run of events without a close or a server exit, the
  identifiers written are strictly increasing and all above the counter the run
  started from, as long as the counter stays within \<open>2^53\<close>. \<open>cleanup\<close>, which
  \<open>close\<close> and the server's exit call, sets the counter to 0: identifiers are
  unique within a connection, not across connections.
\<close>

theorem sendRequest_ids_within_connection:
  "(server c \<and> messageId c < 2 ^ 53 \<longrightarrow>
      (\<exists>c'. sendRequest m ps c = Inr (length (calls c), c') \<and>
         messageId c' = messageId c + 1 \<and>
         call_id (calls c' ! length (calls c)) = messageId c + 1 \<and>
         sent c' = sent c @ [\<lparr>rq_id = messageId c + 1, rq_method = m, rq_params = ps\<rparr>])) \<and>
   (Close \<notin> set es \<and> Exit \<notin> set es \<and> messageId c + int (length es) \<le> 2 ^ 53 \<longrightarrow>
      (\<exists>new. sent (run parse es c) = sent c @ new \<and>
         sorted_wrt (<) (map rq_id new) \<and>
         (\<forall>r \<in> set new. messageId c < rq_id r \<and> rq_id r \<le> messageId (run parse es c)))) \<and>
   messageId (cleanup c) = 0 \<and> messageId (close c) = 0"
proof (intro conjI impI)
  assume a: "server c \<and> messageId c < 2 ^ 53"
  then have "js_incr (messageId c) = messageId c + 1"
    by (simp add: js_incr_def)
  with a show "\<exists>c'. sendRequest m ps c = Inr (length (calls c), c') \<and>
         messageId c' = messageId c + 1 \<and>
         call_id (calls c' ! length (calls c)) = messageId c + 1 \<and>
         sent c' = sent c @ [\<lparr>rq_id = messageId c + 1, rq_method = m, rq_params = ps\<rparr>]"
    by (simp add: sendRequest_connected)
next
  assume "Close \<notin> set es \<and> Exit \<notin> set es \<and> messageId c + int (length es) \<le> 2 ^ 53"
  then show "\<exists>new. sent (run parse es c) = sent c @ new \<and>
         sorted_wrt (<) (map rq_id new) \<and>
         (\<forall>r \<in> set new. messageId c < rq_id r \<and> rq_id r \<le> messageId (run parse es c))"
    using run_one_connection [of es c parse] by blast
next
  show "messageId (cleanup c) = 0"
    by (simp add: cleanup_def)
  show "messageId (close c) = 0"
    by (simp add: close_def cleanup_def Let_def)
qed

theorem sendRequest_ids_within_connection_witness:
  "server (run (\<lambda>l. None) [Spawn] new_client) \<and>
   messageId (run (\<lambda>l. None) [Spawn] new_client) < 2 ^ 53 \<and>
   sendRequest ''tools/list'' None (run (\<lambda>l. None) [Spawn] new_client) =
     Inr (0, \<lparr>server = True, messageId = 1, responseHandlers = [(1, 0)], buffer = [],
              initialized = False,
              calls = [\<lparr>call_id = 1, outcome = Unsettled, timer = True\<rparr>],
              sent = [\<lparr>rq_id = 1, rq_method = ''tools/list'', rq_params = None\<rparr>]\<rparr>) \<and>
   Close \<notin> set [Spawn, Send ''a'' None, Data ''x'', Send ''b'' None, Timeout 0, Send ''c'' None] \<and>
   Exit \<notin> set [Spawn, Send ''a'' None, Data ''x'', Send ''b'' None, Timeout 0, Send ''c'' None] \<and>
   messageId new_client +
     int (length [Spawn, Send ''a'' None, Data ''x'', Send ''b'' None, Timeout 0, Send ''c'' None])
     \<le> 2 ^ 53 \<and>
   map rq_id (sent (run (\<lambda>l. None)
     [Spawn, Send ''a'' None, Data ''x'', Send ''b'' None, Timeout 0, Send ''c'' None] new_client)) =
     [1, 2, 3]"
  using sendRequest_ids_within_connection [of "run (\<lambda>l. None) [Spawn] new_client"
      "''tools/list''" None
      "[Spawn, Send ''a'' None, Data ''x'', Send ''b'' None, Timeout 0, Send ''c'' None]"
      "\<lambda>l. None"]
    sendRequest_ids_within_connection [of new_client "''tools/list''" None
      "[Spawn, Send ''a'' None, Data ''x'', Send ''b'' None, Timeout 0, Send ''c'' None]"
      "\<lambda>l. None"]
  by (simp add: client_eval)

lemma handle_line_no_handlers: "responseHandlers c = [] \<Longrightarrow> handle_line parse l c = c"
  by (simp add: handle_line_def handleResponse_def split: option.split json.split)

lemma fold_handle_line_no_handlers:
  "responseHandlers c = [] \<Longrightarrow> fold (handle_line parse) ls c = c"
  by (induction ls) (simp_all add: handle_line_no_handlers)

lemma outcome_clearTimeout: "map outcome (calls (clearTimeout p c)) = map outcome (calls c)"
  by (auto simp: clearTimeout_def list_eq_iff_nth_eq nth_list_update)

text \<open>
  What \<open>close\<close> does, for every client: it resets the fields of the object and
  leaves every promise as it was; with the table empty, neither a timer that fires
  next nor a chunk that arrives next settles one.
\<close>

lemma close_settles_nothing:
  "close c = c\<lparr>server := False, messageId := 0, responseHandlers := [], buffer := [],
               initialized := False\<rparr> \<and>
   calls (close c) = calls c \<and>
   map outcome (calls (fire_timeout p (close c))) = map outcome (calls c) \<and>
   map outcome (calls (handleData parse chunk (close c))) = map outcome (calls c)"
proof (intro conjI)
  show eq: "close c = c\<lparr>server := False, messageId := 0, responseHandlers := [], buffer := [],
               initialized := False\<rparr>"
    by (cases "server c") (simp_all add: close_def cleanup_def Let_def)
  show "calls (close c) = calls c"
    by (simp add: eq)
  have "fire_timeout p (close c) = clearTimeout p (close c) \<or> fire_timeout p (close c) = close c"
    by (simp add: fire_timeout_def Let_def eq clearTimeout_fields)
  then show "map outcome (calls (fire_timeout p (close c))) = map outcome (calls c)"
    by (auto simp: outcome_clearTimeout eq)
  have "responseHandlers ((close c)\<lparr>buffer := last (split_nl (buffer (close c) @ chunk))\<rparr>) = []"
    by (simp add: eq)
  then show "map outcome (calls (handleData parse chunk (close c))) = map outcome (calls c)"
    by (simp add: handleData_def Let_def fold_handle_line_no_handlers eq)
qed

text \<open>
  C8: the code at the failing input. A client connects and sends one request,
  call 1. Left alone, the call is rejected with \<open>Request timeout\<close> when its timer
  fires. When \<open>close\<close> runs first, or the server exits first, \<open>cleanup\<close> empties the
  table without settling the call: the call is unsettled after the close, and
  still unsettled after its timer has fired, because the timer rejects only a
  call whose identifier the table holds. The waiter is never resolved.
\<close>

theorem close_leaves_call_unsettled:
  "map_of (responseHandlers (run (\<lambda>l. None) [Spawn, Send ''tools/list'' None] new_client)) 1 =
     Some 0 \<and>
   map outcome (calls (run (\<lambda>l. None) [Spawn, Send ''tools/list'' None] new_client)) =
     [Unsettled] \<and>
   map outcome (calls (run (\<lambda>l. None) [Spawn, Send ''tools/list'' None, Timeout 0]
     new_client)) = [Rejected ''Request timeout''] \<and>
   map outcome (calls (run (\<lambda>l. None) [Spawn, Send ''tools/list'' None, Close] new_client)) =
     [Unsettled] \<and>
   map outcome (calls (run (\<lambda>l. None) [Spawn, Send ''tools/list'' None, Close, Timeout 0]
     new_client)) = [Unsettled] \<and>
   map outcome (calls (run (\<lambda>l. None) [Spawn, Send ''tools/list'' None, Exit, Timeout 0]
     new_client)) = [Unsettled]"
  by (simp add: client_eval)

end
